theory Spec2Isabelle
  imports Complex_Main "HOL-Library.Product_Lexorder"
begin

section \<open>Python strings and the Unicode tables\<close>

text \<open>
  A Python \<^verbatim>\<open>str\<close> is a sequence of code points, so text is a list of naturals.
  String literals of the source are written \<open>lit ''...''\<close>.

  The character classes of \<^verbatim>\<open>str\<close> and \<^verbatim>\<open>re\<close> (whitespace, \<^verbatim>\<open>\d\<close>,
  \<^verbatim>\<open>\w\<close>, case) and \<^verbatim>\<open>unicodedata.normalize\<close> belong to the Python runtime, not to
  the repository. On ASCII their values are written out below; on every other code
  point they are read from a record of tables that each operation takes as its first
  argument, so every result holds for whatever the runtime's tables are.
\<close>

type_synonym codepoint = nat
type_synonym pystr = "codepoint list"

definition lit :: "string \<Rightarrow> pystr" where
  "lit s = map of_char s"

record unicode =
  u_isspace :: "codepoint \<Rightarrow> bool"
  u_isdecimal :: "codepoint \<Rightarrow> bool"
  u_isdigit :: "codepoint \<Rightarrow> bool"
  u_isword :: "codepoint \<Rightarrow> bool"
  u_isupper :: "codepoint \<Rightarrow> bool"
  u_islower :: "codepoint \<Rightarrow> bool"
  u_casematch :: "codepoint \<Rightarrow> codepoint \<Rightarrow> bool"
  u_lower :: "pystr \<Rightarrow> pystr"
  u_nfkc :: "pystr \<Rightarrow> pystr"

definition is_ascii :: "codepoint \<Rightarrow> bool" where
  "is_ascii c = (c < 128)"

definition ascii_space :: "codepoint \<Rightarrow> bool" where
  "ascii_space c = ((9 \<le> c \<and> c \<le> 13) \<or> (28 \<le> c \<and> c \<le> 32))"

definition ascii_decimal :: "codepoint \<Rightarrow> bool" where
  "ascii_decimal c = (48 \<le> c \<and> c \<le> 57)"

definition ascii_upper :: "codepoint \<Rightarrow> bool" where
  "ascii_upper c = (65 \<le> c \<and> c \<le> 90)"

definition ascii_lower :: "codepoint \<Rightarrow> bool" where
  "ascii_lower c = (97 \<le> c \<and> c \<le> 122)"

definition ascii_tolower :: "codepoint \<Rightarrow> codepoint" where
  "ascii_tolower c = (if ascii_upper c then c + 32 else c)"

text \<open>\<^verbatim>\<open>str.isspace\<close> of one character; also the class \<^verbatim>\<open>\s\<close> of a \<^verbatim>\<open>str\<close> pattern.\<close>

definition isspace :: "unicode \<Rightarrow> codepoint \<Rightarrow> bool" where
  "isspace U c = (if is_ascii c then ascii_space c else u_isspace U c)"

text \<open>The class \<^verbatim>\<open>\d\<close> of a \<^verbatim>\<open>str\<close> pattern (decimal digits).\<close>

definition isdecimal :: "unicode \<Rightarrow> codepoint \<Rightarrow> bool" where
  "isdecimal U c = (if is_ascii c then ascii_decimal c else u_isdecimal U c)"

text \<open>\<^verbatim>\<open>str.isdigit\<close> of one character.\<close>

definition isdigit :: "unicode \<Rightarrow> codepoint \<Rightarrow> bool" where
  "isdigit U c = (if is_ascii c then ascii_decimal c else u_isdigit U c)"

text \<open>The class \<^verbatim>\<open>\w\<close> of a \<^verbatim>\<open>str\<close> pattern.\<close>

definition isword :: "unicode \<Rightarrow> codepoint \<Rightarrow> bool" where
  "isword U c =
     (if is_ascii c then ascii_decimal c \<or> ascii_upper c \<or> ascii_lower c \<or> c = 95
      else u_isword U c)"

definition isupper :: "unicode \<Rightarrow> codepoint \<Rightarrow> bool" where
  "isupper U c = (if is_ascii c then ascii_upper c else u_isupper U c)"

text \<open>Lowercase or titlecase: the characters that make \<^verbatim>\<open>str.isupper\<close> false.\<close>

definition islower :: "unicode \<Rightarrow> codepoint \<Rightarrow> bool" where
  "islower U c = (if is_ascii c then ascii_lower c else u_islower U c)"

text \<open>
  Whether the pattern character \<open>p\<close> (an ASCII letter or sign of a pattern compiled
  with \<^verbatim>\<open>re.IGNORECASE\<close>) matches the text character \<open>c\<close>.
\<close>

definition casematch :: "unicode \<Rightarrow> codepoint \<Rightarrow> codepoint \<Rightarrow> bool" where
  "casematch U p c =
     (if is_ascii c then ascii_tolower c = ascii_tolower p else u_casematch U p c)"

text \<open>\<^verbatim>\<open>str.lower\<close>.\<close>

definition str_lower :: "unicode \<Rightarrow> pystr \<Rightarrow> pystr" where
  "str_lower U s = (if list_all is_ascii s then map ascii_tolower s else u_lower U s)"

text \<open>\<^verbatim>\<open>unicodedata.normalize('NFKC', s)\<close>: the identity on ASCII text.\<close>

definition nfkc :: "unicode \<Rightarrow> pystr \<Rightarrow> pystr" where
  "nfkc U s = (if list_all is_ascii s then s else u_nfkc U s)"

text \<open>\<^verbatim>\<open>s.strip()\<close>.\<close>

definition str_strip :: "unicode \<Rightarrow> pystr \<Rightarrow> pystr" where
  "str_strip U s = rev (dropWhile (isspace U) (rev (dropWhile (isspace U) s)))"

text \<open>\<^verbatim>\<open>s.split()\<close>: the maximal runs of characters that are not whitespace.\<close>

function (sequential) str_split :: "unicode \<Rightarrow> pystr \<Rightarrow> pystr list" where
  "str_split U [] = []"
| "str_split U (c # cs) =
     (if isspace U c then str_split U cs
      else (c # takeWhile (\<lambda>x. \<not> isspace U x) cs)
             # str_split U (dropWhile (\<lambda>x. \<not> isspace U x) cs))"
  by pat_completeness auto
termination
  by (relation "measure (\<lambda>(U, s). length s)")
     (auto simp: less_Suc_eq_le length_dropWhile_le)

text \<open>\<^verbatim>\<open>sep.join(parts)\<close>.\<close>

fun str_join :: "pystr \<Rightarrow> pystr list \<Rightarrow> pystr" where
  "str_join sep [] = []"
| "str_join sep [x] = x"
| "str_join sep (x # y # ys) = x @ sep @ str_join sep (y # ys)"

text \<open>\<^verbatim>\<open>s.startswith(p)\<close> and \<^verbatim>\<open>p in s\<close>.\<close>

fun str_startswith :: "pystr \<Rightarrow> pystr \<Rightarrow> bool" where
  "str_startswith s [] = True"
| "str_startswith [] (p # ps) = False"
| "str_startswith (c # cs) (p # ps) = (c = p \<and> str_startswith cs ps)"

fun str_contains :: "pystr \<Rightarrow> pystr \<Rightarrow> bool" where
  "str_contains p [] = (p = [])"
| "str_contains p (c # cs) = (str_startswith (c # cs) p \<or> str_contains p cs)"

text \<open>\<^verbatim>\<open>s.endswith(p)\<close>.\<close>

definition str_endswith :: "pystr \<Rightarrow> pystr \<Rightarrow> bool" where
  "str_endswith s p = str_startswith (rev s) (rev p)"

text \<open>\<^verbatim>\<open>s.isdigit()\<close>: every character is a digit and there is at least one.\<close>

definition str_isdigit :: "unicode \<Rightarrow> pystr \<Rightarrow> bool" where
  "str_isdigit U s = (s \<noteq> [] \<and> list_all (isdigit U) s)"

text \<open>
  \<^verbatim>\<open>s.isupper()\<close>: there is an uppercase character, and no lowercase or titlecase one.
\<close>

definition str_isupper :: "unicode \<Rightarrow> pystr \<Rightarrow> bool" where
  "str_isupper U s = (list_ex (isupper U) s \<and> \<not> list_ex (islower U) s)"

text \<open>\<^verbatim>\<open>s.replace(old, new)\<close> for a one-character \<open>old\<close>, as both calls of the source are.\<close>

definition str_replace1 :: "codepoint \<Rightarrow> pystr \<Rightarrow> pystr \<Rightarrow> pystr" where
  "str_replace1 old new s = concat (map (\<lambda>c. if c = old then new else [c]) s)"

section \<open>Regular expressions\<close>

text \<open>
  Python's \<^verbatim>\<open>re\<close> is a backtracking matcher. A pattern of the source is written
  as a term of \<open>regex\<close>, and \<open>rmatch r st\<close> lists the states in which a match of
  \<open>r\<close> that starts in \<open>st\<close> can end, in the order in which backtracking tries them
  (a greedy repetition first tries one more round); the head of the list is the match
  Python finds. A state holds the character before the position (for \<^verbatim>\<open>\b\<close>), the
  text from the position on, and the groups captured so far, the latest first.
\<close>

datatype regex =
    Eps
  | Cls "codepoint \<Rightarrow> bool"
  | Seq regex regex
  | Alt regex regex
  | Star regex
  | Group nat regex
  | Look regex
  | WordB "codepoint \<Rightarrow> bool"

record mstate =
  m_prev :: "codepoint option"
  m_rest :: pystr
  m_groups :: "(nat \<times> pystr) list"

text \<open>\<^verbatim>\<open>\b\<close>: exactly one of the two neighbours is a word character.\<close>

definition is_boundary :: "(codepoint \<Rightarrow> bool) \<Rightarrow> codepoint option \<Rightarrow> pystr \<Rightarrow> bool" where
  "is_boundary W prev rest =
     ((case prev of None \<Rightarrow> False | Some c \<Rightarrow> W c)
        \<noteq> (case rest of [] \<Rightarrow> False | c # cs \<Rightarrow> W c))"

function (sequential) rmatch :: "regex \<Rightarrow> mstate \<Rightarrow> mstate list" where
  "rmatch Eps st = [st]"
| "rmatch (Cls P) st =
     (case m_rest st of
        [] \<Rightarrow> []
      | c # cs \<Rightarrow> if P c then [st\<lparr>m_prev := Some c, m_rest := cs\<rparr>] else [])"
| "rmatch (Seq r1 r2) st = concat (map (rmatch r2) (rmatch r1 st))"
| "rmatch (Alt r1 r2) st = rmatch r1 st @ rmatch r2 st"
| "rmatch (Star r) st =
     concat (map (rmatch (Star r))
               (filter (\<lambda>st'. length (m_rest st') < length (m_rest st)) (rmatch r st)))
     @ [st]"
| "rmatch (Group g r) st =
     map (\<lambda>st'. st'\<lparr>m_groups :=
                      (g, take (length (m_rest st) - length (m_rest st')) (m_rest st))
                        # m_groups st'\<rparr>)
       (rmatch r st)"
| "rmatch (Look r) st =
     (case rmatch r st of [] \<Rightarrow> [] | st' # other \<Rightarrow> [st\<lparr>m_groups := m_groups st'\<rparr>])"
| "rmatch (WordB W) st = (if is_boundary W (m_prev st) (m_rest st) then [st] else [])"
  by pat_completeness auto
termination
  by (relation "measures [\<lambda>(r, st). size r, \<lambda>(r, st). length (m_rest st)]") auto

text \<open>\<^verbatim>\<open>r+\<close>, one character, a literal string, and a literal under \<^verbatim>\<open>re.IGNORECASE\<close>.\<close>

definition Plus :: "regex \<Rightarrow> regex" where
  "Plus r = Seq r (Star r)"

definition Chr :: "codepoint \<Rightarrow> regex" where
  "Chr p = Cls (\<lambda>c. c = p)"

fun Str :: "pystr \<Rightarrow> regex" where
  "Str [] = Eps"
| "Str (p # ps) = Seq (Chr p) (Str ps)"

fun StrI :: "unicode \<Rightarrow> pystr \<Rightarrow> regex" where
  "StrI U [] = Eps"
| "StrI U (p # ps) = Seq (Cls (casematch U p)) (StrI U ps)"

fun Alts :: "regex list \<Rightarrow> regex" where
  "Alts [] = Eps"
| "Alts [r] = r"
| "Alts (r # r' # rs) = Alt r (Alts (r' # rs))"

text \<open>\<^verbatim>\<open>m.group(g)\<close>, \<open>None\<close> for a group that took no part in the match.\<close>

definition group :: "mstate \<Rightarrow> nat \<Rightarrow> pystr option" where
  "group st g = map_of (m_groups st) g"

text \<open>\<^verbatim>\<open>re.match(r, s)\<close>.\<close>

definition re_match :: "regex \<Rightarrow> pystr \<Rightarrow> mstate option" where
  "re_match r s =
     (case rmatch r \<lparr>m_prev = None, m_rest = s, m_groups = []\<rparr> of
        [] \<Rightarrow> None
      | st # other \<Rightarrow> Some st)"

text \<open>\<^verbatim>\<open>re.search(r, s)\<close>: the match at the leftmost position that has one.\<close>

fun search_from :: "regex \<Rightarrow> codepoint option \<Rightarrow> pystr \<Rightarrow> mstate option" where
  "search_from r prev [] =
     (case rmatch r \<lparr>m_prev = prev, m_rest = [], m_groups = []\<rparr> of
        [] \<Rightarrow> None
      | st # other \<Rightarrow> Some st)"
| "search_from r prev (c # cs) =
     (case rmatch r \<lparr>m_prev = prev, m_rest = c # cs, m_groups = []\<rparr> of
        [] \<Rightarrow> search_from r (Some c) cs
      | st # other \<Rightarrow> Some st)"

definition re_search :: "regex \<Rightarrow> pystr \<Rightarrow> mstate option" where
  "re_search r s = search_from r None s"

text \<open>
  The scan that \<^verbatim>\<open>re.sub\<close> and \<^verbatim>\<open>re.split\<close> share (Python 3.7 and later): the
  successive matches from left to right, each with the text between the match before it
  and itself, and the text after the last match. After an empty match the next match at
  the same position must not be empty (\<open>must_advance\<close>).
\<close>

function re_scan ::
  "regex \<Rightarrow> bool \<Rightarrow> codepoint option \<Rightarrow> pystr \<Rightarrow> pystr \<Rightarrow> (pystr \<times> mstate) list \<times> pystr" where
  "re_scan r must_advance prev s seg =
     (case find (\<lambda>st. \<not> must_advance \<or> length (m_rest st) < length s)
             (rmatch r \<lparr>m_prev = prev, m_rest = s, m_groups = []\<rparr>) of
        Some st \<Rightarrow>
          if length (m_rest st) < length s
          then (case re_scan r False (m_prev st) (m_rest st) [] of
                  (found, end_seg) \<Rightarrow> ((seg, st) # found, end_seg))
          else if must_advance then ([], seg @ s)
          else (case re_scan r True prev s [] of
                  (found, end_seg) \<Rightarrow> ((seg, st) # found, end_seg))
      | None \<Rightarrow>
          (case s of
             [] \<Rightarrow> ([], seg)
           | c # cs \<Rightarrow> re_scan r False (Some c) cs (seg @ [c])))"
  by pat_completeness auto
termination
  by (relation "measures [\<lambda>(r, m, prev, s, seg). length s,
                          \<lambda>(r, m, prev, s, seg). if m then 0 else 1]") auto

text \<open>\<^verbatim>\<open>re.sub(r, repl, s)\<close> for a replacement without group references.\<close>

definition re_sub :: "regex \<Rightarrow> pystr \<Rightarrow> pystr \<Rightarrow> pystr" where
  "re_sub r repl s =
     (case re_scan r False None s [] of
        (found, end_seg) \<Rightarrow> concat (map (\<lambda>(seg, st). seg @ repl) found) @ end_seg)"

text \<open>
  \<^verbatim>\<open>re.split(r, s)\<close> for a pattern with \<open>n\<close> groups: the text between the matches,
  and after each piece before a match the \<open>n\<close> groups of that match (\<open>None\<close> for a
  group that took no part).
\<close>

definition re_split :: "regex \<Rightarrow> nat \<Rightarrow> pystr \<Rightarrow> pystr option list" where
  "re_split r n s =
     (case re_scan r False None s [] of
        (found, end_seg) \<Rightarrow>
          concat (map (\<lambda>(seg, st). Some seg # map (group st) [1..<Suc n]) found)
          @ [Some end_seg])"

section \<open>The text normaliser \<^verbatim>\<open>clean_text\<close>\<close>

text \<open>The pattern \<^verbatim>\<open>\s+\<close>.\<close>

definition pat_spaces :: "unicode \<Rightarrow> regex" where
  "pat_spaces U = Plus (Cls (isspace U))"

text \<open>
  \<^verbatim>\<open>clean_text\<close>. The two ligatures are the code points U+FB01 (64257) and
  U+FB02 (64258).
\<close>

definition clean_text :: "unicode \<Rightarrow> pystr \<Rightarrow> pystr" where
  "clean_text U text =
     (if text = [] then []
      else
        let text = nfkc U text;
            text = str_strip U (str_replace1 64258 (lit ''fl'') (str_replace1 64257 (lit ''fi'') text));
            text = re_sub (pat_spaces U) (lit '' '') text
        in text)"

section \<open>Numbers and exceptions\<close>

text \<open>
  The backend's sizes and coordinates are Python floats; they are modelled as exact
  reals. \<^verbatim>\<open>round(x)\<close> rounds to the nearest integer, a tie to the even one.
\<close>

definition py_round :: "real \<Rightarrow> int" where
  "py_round x =
     (let f = \<lfloor>x\<rfloor>; d = x - of_int f in
      if d < 1 / 2 then f else if 1 / 2 < d then f + 1 else if even f then f else f + 1)"

datatype exn = IndexError | ValueError | AttributeError | FileDataError | MemoryError | OtherError

section \<open>The outline structurer of \<^verbatim>\<open>BaseStrategy\<close>\<close>

type_synonym bbox = "real \<times> real \<times> real \<times> real"

definition bbox0 :: "bbox \<Rightarrow> real" where "bbox0 b = fst b"
definition bbox1 :: "bbox \<Rightarrow> real" where "bbox1 b = fst (snd b)"
definition bbox2 :: "bbox \<Rightarrow> real" where "bbox2 b = fst (snd (snd b))"
definition bbox3 :: "bbox \<Rightarrow> real" where "bbox3 b = snd (snd (snd b))"

text \<open>A heading candidate: the dictionary with keys text, page, style and bbox.\<close>

record heading =
  h_text :: pystr
  h_page :: int
  h_style :: "int \<times> bool"
  h_bbox :: bbox

text \<open>
  An outline item. The source stores the level as the string \<^verbatim>\<open>f"H{level}"\<close>; the
  field \<open>o_level\<close> holds the integer that was formatted.
\<close>

record outline_item =
  o_level :: int
  o_text :: pystr
  o_page :: int

text \<open>
  \<^verbatim>\<open>int(item['level'][1])\<close>: the character after the H is the minus sign of a negative
  level, on which \<^verbatim>\<open>int\<close> raises, and otherwise the leading decimal digit.
\<close>

function leading_digit :: "nat \<Rightarrow> nat" where
  "leading_digit n = (if n < 10 then n else leading_digit (n div 10))"
  by pat_completeness auto
termination
  by (relation "measure (\<lambda>n. n)") auto

definition level_num :: "int \<Rightarrow> exn + int" where
  "level_num n = (if n < 0 then Inl ValueError else Inr (int (leading_digit (nat n))))"

text \<open>The pattern \<^verbatim>\<open>^(\d+(\.\d+)*)\<close> of \<^verbatim>\<open>re.match\<close>, which matches at the start only.\<close>

definition pat_numbering :: "unicode \<Rightarrow> regex" where
  "pat_numbering U =
     Group 1 (Seq (Plus (Cls (isdecimal U)))
                  (Star (Group 2 (Seq (Chr 46) (Plus (Cls (isdecimal U)))))))"

text \<open>\<^verbatim>\<open>xs.index(x)\<close>, \<open>None\<close> where Python raises ValueError.\<close>

fun list_index :: "'a list \<Rightarrow> 'a \<Rightarrow> nat option" where
  "list_index [] x = None"
| "list_index (y # ys) x =
     (if y = x then Some 0 else map_option Suc (list_index ys x))"

text \<open>
  The level of one candidate. Group 1 is the whole pattern, so \<^verbatim>\<open>match.group(1)\<close> is
  the matched text whenever there is a match (lemma \<open>numbering_group\<close> below).
\<close>

definition heading_level :: "unicode \<Rightarrow> (int \<times> bool) list \<Rightarrow> heading \<Rightarrow> int" where
  "heading_level U heading_styles h =
     (case re_match (pat_numbering U) (h_text h) of
        Some m \<Rightarrow> min (int (count_list (the (group m 1)) 46) + 1) 3
      | None \<Rightarrow>
          (case list_index heading_styles (h_style h) of
             Some rank \<Rightarrow> min (int rank + 1) 3
           | None \<Rightarrow> 3))"

text \<open>The loop that keeps the first item of every (text, page) pair.\<close>

fun unique_loop :: "(pystr \<times> int) set \<Rightarrow> outline_item list \<Rightarrow> outline_item list" where
  "unique_loop seen [] = []"
| "unique_loop seen (item # rest) =
     (if (o_text item, o_page item) \<in> seen then unique_loop seen rest
      else item # unique_loop (insert (o_text item, o_page item) seen) rest)"

text \<open>\<^verbatim>\<open>_post_process_outline\<close>: the loop over \<open>outline[1:]\<close>, \<open>final\<close> never empty.\<close>

fun post_process_loop :: "outline_item list \<Rightarrow> outline_item list \<Rightarrow> exn + outline_item list" where
  "post_process_loop final [] = Inr final"
| "post_process_loop final (current_item # rest) =
     (case level_num (o_level (last final)) of
        Inl e \<Rightarrow> Inl e
      | Inr last_level_num \<Rightarrow>
          (case level_num (o_level current_item) of
             Inl e \<Rightarrow> Inl e
           | Inr current_level_num \<Rightarrow>
               post_process_loop
                 (final @ [if current_level_num > last_level_num + 1
                           then current_item\<lparr>o_level := last_level_num + 1\<rparr>
                           else current_item])
                 rest))"

definition post_process_outline :: "outline_item list \<Rightarrow> exn + outline_item list" where
  "post_process_outline outline =
     (case outline of [] \<Rightarrow> Inr [] | first # rest \<Rightarrow> post_process_loop [first] rest)"

text \<open>
  \<^verbatim>\<open>_structure_headings\<close>. The styles are distinct and each is its own sort key, so
  the descending sort of the set is the reverse of the ascending sort without duplicates.
\<close>

definition structure_headings :: "unicode \<Rightarrow> heading list \<Rightarrow> exn + outline_item list" where
  "structure_headings U headings =
     (if headings = [] then Inr []
      else
        let headings = sort_key (\<lambda>h. (h_page h, bbox1 (h_bbox h))) headings;
            heading_styles = rev (sort (remdups (map h_style headings)));
            outline = map (\<lambda>h. \<lparr>o_level = heading_level U heading_styles h,
                                 o_text = h_text h, o_page = h_page h + 1\<rparr>) headings;
            unique_outline = unique_loop {} outline
        in post_process_outline unique_outline)"

section \<open>The document as the backend gives it\<close>

text \<open>
  The values the source reads from the decoding backend, per page: the rectangle, the
  blocks of \<^verbatim>\<open>get_text("dict")\<close> and of \<^verbatim>\<open>get_text("dict", flags=0)\<close> (the flags
  change what the backend extracts, so the two lists are separate fields), the plain text
  of \<^verbatim>\<open>get_text("text", flags=0)\<close> and the words of \<^verbatim>\<open>get_text("words")\<close>. A block of
  a type other than 0 has no lines; the source never reads them.
\<close>

record text_span =
  s_text :: pystr
  s_size :: real
  s_font :: pystr

record text_line =
  l_spans :: "text_span list"

record text_block =
  b_type :: int
  b_bbox :: bbox
  b_lines :: "text_line list"

record pdf_page =
  rect_width :: real
  rect_height :: real
  text_dict :: "text_block list"
  text_dict_flags0 :: "text_block list"
  text_plain_flags0 :: pystr
  text_words :: "pystr list"

record document =
  doc_pages :: "pdf_page list"
  doc_toc :: "(int \<times> pystr \<times> int) list"

definition page_count :: "document \<Rightarrow> nat" where
  "page_count doc = length (doc_pages doc)"

text \<open>The result dictionary with the keys title and outline.\<close>

record extraction =
  r_title :: pystr
  r_outline :: "outline_item list"

text \<open>\<^verbatim>\<open>[s for l in b['lines'] for s in l['spans']]\<close>.\<close>

definition block_spans :: "text_block \<Rightarrow> text_span list" where
  "block_spans b = concat (map l_spans (b_lines b))"

text \<open>\<^verbatim>\<open>" ".join(s['text'] for l in b['lines'] for s in l['spans'])\<close>.\<close>

definition block_join_text :: "text_block \<Rightarrow> pystr" where
  "block_join_text b = str_join (lit '' '') (map s_text (block_spans b))"

text \<open>\<^verbatim>\<open>max(xs)\<close> of a list that is not empty.\<close>

definition py_max :: "real list \<Rightarrow> real" where
  "py_max xs = fold max (tl xs) (hd xs)"

text \<open>The pattern \<^verbatim>\<open>\b(title|abstract)\b\<close> under \<^verbatim>\<open>re.IGNORECASE\<close>.\<close>

definition pat_title_keyword :: "unicode \<Rightarrow> regex" where
  "pat_title_keyword U =
     Seq (WordB (isword U))
       (Seq (Group 1 (Alt (StrI U (lit ''title'')) (StrI U (lit ''abstract''))))
            (WordB (isword U)))"

text \<open>
  \<^verbatim>\<open>TOCStrategy._extract_title\<close>. Each of the two fallback loops returns at the first
  block that passes its test, so it is a \<open>find\<close>.
\<close>

definition TOCStrategy_extract_title :: "unicode \<Rightarrow> document \<Rightarrow> pystr" where
  "TOCStrategy_extract_title U doc =
     (if page_count doc = 0 then []
      else
        let page = doc_pages doc ! 0;
            page_width = rect_width page;
            blocks = filter (\<lambda>b. b_type b = 0 \<and> bbox3 (b_bbox b) < rect_height page * (6 / 10))
                       (text_dict page)
        in
        if blocks = [] then []
        else
          let spans = filter (\<lambda>s. str_strip U (s_text s) \<noteq> []) (concat (map block_spans blocks));
              top_size = py_max (map s_size spans);
              title_candidates =
                filter (\<lambda>s. py_round (s_size s) \<ge> py_round (top_size * (9 / 10))) spans
          in
          if spans \<noteq> [] \<and> title_candidates \<noteq> []
          then clean_text U
                 (str_join (lit '' '')
                    (map s_text
                       (filter (\<lambda>s. py_round (s_size s) = py_round top_size) title_candidates)))
          else
            (case find (\<lambda>block.
                     let center_pos = (bbox0 (b_bbox block) + bbox2 (b_bbox block)) / 2;
                         text = clean_text U (block_join_text block)
                     in \<bar>center_pos - page_width / 2\<bar> < page_width * (25 / 100) \<and>
                        text \<noteq> [] \<and> length (str_split U text) < 20)
                   blocks of
               Some block \<Rightarrow> clean_text U (block_join_text block)
             | None \<Rightarrow>
                 (case find (\<lambda>block.
                          re_search (pat_title_keyword U) (clean_text U (block_join_text block))
                            \<noteq> None)
                        blocks of
                    Some block \<Rightarrow> clean_text U (block_join_text block)
                  | None \<Rightarrow> [])))"

text \<open>\<^verbatim>\<open>HeuristicStrategy._extract_title\<close>, which FormStrategy inherits.\<close>

definition HeuristicStrategy_extract_title :: "unicode \<Rightarrow> document \<Rightarrow> pystr" where
  "HeuristicStrategy_extract_title U doc =
     (if page_count doc = 0 then []
      else
        let page = doc_pages doc ! 0;
            page_width = rect_width page;
            blocks = filter (\<lambda>b. b_type b = 0 \<and> bbox3 (b_bbox b) < rect_height page * (6 / 10))
                       (text_dict page)
        in
        if blocks = [] then []
        else
          let spans = filter (\<lambda>s. str_strip U (s_text s) \<noteq> []) (concat (map block_spans blocks));
              top_size = py_max (map s_size spans);
              title_candidates =
                filter (\<lambda>s. py_round (s_size s) \<ge> py_round (top_size * (9 / 10))) spans
          in
          if spans \<noteq> [] \<and> title_candidates \<noteq> []
          then clean_text U
                 (str_join (lit '' '')
                    (map s_text
                       (filter (\<lambda>s. py_round (s_size s) = py_round top_size) title_candidates)))
          else
            (case find (\<lambda>block.
                     let center_pos = (bbox0 (b_bbox block) + bbox2 (b_bbox block)) / 2;
                         text = clean_text U (block_join_text block)
                     in \<bar>center_pos - page_width / 2\<bar> < page_width * (25 / 100) \<and>
                        text \<noteq> [] \<and> length (str_split U text) < 20)
                   blocks of
               Some block \<Rightarrow> clean_text U (block_join_text block)
             | None \<Rightarrow>
                 (case find (\<lambda>block.
                          re_search (pat_title_keyword U) (clean_text U (block_join_text block))
                            \<noteq> None)
                        blocks of
                    Some block \<Rightarrow> clean_text U (block_join_text block)
                  | None \<Rightarrow> [])))"

section \<open>The strategies\<close>

text \<open>
  A loop that appends what each element yields and stops at the first exception.
\<close>

fun collect :: "('a \<Rightarrow> exn + 'b list) \<Rightarrow> 'a list \<Rightarrow> exn + 'b list" where
  "collect f [] = Inr []"
| "collect f (x # xs) =
     (case f x of
        Inl e \<Rightarrow> Inl e
      | Inr ys \<Rightarrow> (case collect f xs of Inl e \<Rightarrow> Inl e | Inr zs \<Rightarrow> Inr (ys @ zs)))"

subsection \<open>TOCStrategy\<close>

text \<open>The pattern \<^verbatim>\<open>\s+\.{2,}\s*\d+\<close>.\<close>

definition pat_dot_leader :: "unicode \<Rightarrow> regex" where
  "pat_dot_leader U =
     Seq (Plus (Cls (isspace U)))
       (Seq (Seq (Chr 46) (Plus (Chr 46)))
          (Seq (Star (Cls (isspace U))) (Plus (Cls (isdecimal U)))))"

text \<open>The pattern \<^verbatim>\<open>(?=\d+(\.\d+)+\s)\<close>, which has one group.\<close>

definition pat_sub_heading :: "unicode \<Rightarrow> regex" where
  "pat_sub_heading U =
     Look (Seq (Plus (Cls (isdecimal U)))
             (Seq (Plus (Group 1 (Seq (Chr 46) (Plus (Cls (isdecimal U))))))
                (Cls (isspace U))))"

text \<open>
  The body of the loop of \<^verbatim>\<open>_process_toc\<close> for one entry: the items it appends.
  \<^verbatim>\<open>re.split\<close> gives \<open>None\<close> for a group that took no part in a match, and
  \<^verbatim>\<open>None.strip()\<close> raises AttributeError.
\<close>

definition toc_entry_items :: "unicode \<Rightarrow> int \<times> pystr \<times> int \<Rightarrow> exn + outline_item list" where
  "toc_entry_items U entry =
     (case entry of (level, title, page) \<Rightarrow>
        if level \<le> 3 then
          let cleaned_title = clean_text U (re_sub (pat_dot_leader U) [] title) in
          if length cleaned_title > 2 \<and> \<not> str_isdigit U cleaned_title then
            let sub_headings = re_split (pat_sub_heading U) 1 cleaned_title in
            collect (\<lambda>sub_heading.
                       case sub_heading of
                         None \<Rightarrow> Inl AttributeError
                       | Some sh \<Rightarrow>
                           if str_strip U sh \<noteq> []
                           then Inr [\<lparr>o_level = level, o_text = str_strip U sh, o_page = page + 1\<rparr>]
                           else Inr [])
              sub_headings
          else Inr []
        else Inr [])"

definition process_toc :: "unicode \<Rightarrow> (int \<times> pystr \<times> int) list \<Rightarrow> exn + outline_item list" where
  "process_toc U toc =
     (case collect (toc_entry_items U) toc of
        Inl e \<Rightarrow> Inl e
      | Inr outline \<Rightarrow> post_process_outline outline)"

definition TOCStrategy_extract :: "unicode \<Rightarrow> document \<Rightarrow> exn + extraction" where
  "TOCStrategy_extract U doc =
     (let title = TOCStrategy_extract_title U doc;
          toc = doc_toc doc
      in case process_toc U toc of
           Inl e \<Rightarrow> Inl e
         | Inr outline \<Rightarrow> Inr \<lparr>r_title = title, r_outline = outline\<rparr>)"

subsection \<open>HeuristicStrategy\<close>

text \<open>
  The Counter of \<^verbatim>\<open>_analyze_font_stats\<close>, as the list of its (key, count) pairs in the
  order in which the keys were first counted.
\<close>

fun counter_add :: "(int \<times> nat) list \<Rightarrow> int \<Rightarrow> nat \<Rightarrow> (int \<times> nat) list" where
  "counter_add [] k n = [(k, n)]"
| "counter_add ((k', v) # rest) k n =
     (if k' = k then (k', v + n) # rest else (k', v) # counter_add rest k n)"

definition analyze_font_stats :: "unicode \<Rightarrow> document \<Rightarrow> (int \<times> nat) list" where
  "analyze_font_stats U doc =
     foldl (\<lambda>counts span.
              if str_strip U (s_text span) \<noteq> []
              then counter_add counts (py_round (s_size span)) (length (str_strip U (s_text span)))
              else counts)
       []
       (concat (map (\<lambda>page. concat (map block_spans
                                       (filter (\<lambda>block. b_type block = 0) (text_dict_flags0 page))))
                  (doc_pages doc)))"

text \<open>
  \<^verbatim>\<open>most_common(1)\<close> is \<^verbatim>\<open>max\<close> by the count, which keeps the first of the entries
  with the largest count.
\<close>

fun most_common1 :: "(int \<times> nat) \<Rightarrow> (int \<times> nat) list \<Rightarrow> (int \<times> nat)" where
  "most_common1 best [] = best"
| "most_common1 best (x # xs) = most_common1 (if snd best < snd x then x else best) xs"

definition get_dominant_font_size :: "(int \<times> nat) list \<Rightarrow> int" where
  "get_dominant_font_size font_stats =
     (case font_stats of [] \<Rightarrow> 10 | x # xs \<Rightarrow> fst (most_common1 x xs))"

definition body_size_of :: "unicode \<Rightarrow> document \<Rightarrow> int" where
  "body_size_of U doc = get_dominant_font_size (analyze_font_stats U doc)"

text \<open>
  The pattern \<^verbatim>\<open>^((\d+(\.\d+)*)|(Appendix\s+[A-Z])|([IVXLCDM]+\.))\b\<close> of
  \<^verbatim>\<open>re.match\<close>. The letters I V X L C D M are 73 86 88 76 67 68 77.
\<close>

definition pat_heading_number :: "unicode \<Rightarrow> regex" where
  "pat_heading_number U =
     Seq (Group 1
            (Alt (Group 2 (Seq (Plus (Cls (isdecimal U)))
                             (Star (Group 3 (Seq (Chr 46) (Plus (Cls (isdecimal U))))))))
               (Alt (Group 4 (Seq (Str (lit ''Appendix''))
                                (Seq (Plus (Cls (isspace U))) (Cls ascii_upper))))
                    (Group 5 (Seq (Plus (Cls (\<lambda>c. c \<in> set [73, 86, 88, 76, 67, 68, 77])))
                                (Chr 46))))))
         (WordB (isword U))"

text \<open>The score that \<^verbatim>\<open>_find_headings\<close> adds up for a block.\<close>

definition heuristic_score :: "unicode \<Rightarrow> int \<Rightarrow> pystr \<Rightarrow> int \<Rightarrow> bool \<Rightarrow> int" where
  "heuristic_score U body_size block_text font_size is_bold =
     (let score = 0;
          score = (if font_size > body_size then score + (font_size - body_size) * 5 else score);
          score = (if is_bold then score + 10 else score);
          score = (if length (str_split U block_text) < 12 then score + 10 else score);
          score = (if \<not> (str_endswith block_text (lit ''.'') \<or> str_endswith block_text (lit '':'')
                         \<or> str_endswith block_text (lit '';''))
                   then score + 5 else score);
          score = (if re_match (pat_heading_number U) block_text \<noteq> None then score + 30 else score);
          score = (if length (str_split U block_text) > 25
                      \<or> (46 \<in> set (butlast (tl block_text)) \<and> length block_text > 30)
                   then score - 20 else score)
      in score)"

text \<open>
  The body of the inner loop of \<^verbatim>\<open>_find_headings\<close> for one block: the candidate it
  appends, if any. \<^verbatim>\<open>b['lines'][0]['spans'][0]\<close> raises IndexError on an empty list of
  spans; the list of lines is not empty there.
\<close>

definition heuristic_block ::
  "unicode \<Rightarrow> int \<Rightarrow> int \<Rightarrow> pdf_page \<Rightarrow> text_block \<Rightarrow> exn + heading list" where
  "heuristic_block U body_size page_num page b =
     (if b_type b \<noteq> 0 \<or> b_lines b = [] then Inr []
      else
        let block_text = clean_text U (block_join_text b) in
        if block_text = [] then Inr []
        else if bbox1 (b_bbox b) < 50 \<or> bbox3 (b_bbox b) > rect_height page - 50 then Inr []
        else
          (case l_spans (b_lines b ! 0) of
             [] \<Rightarrow> Inl IndexError
           | first_span # other \<Rightarrow>
               let font_size = py_round (s_size first_span);
                   is_bold = str_contains (lit ''bold'') (str_lower U (s_font first_span));
                   score = heuristic_score U body_size block_text font_size is_bold
               in
               if score \<ge> 25
               then Inr [\<lparr>h_text = block_text, h_page = page_num, h_style = (font_size, is_bold),
                          h_bbox = b_bbox b\<rparr>]
               else Inr []))"

text \<open>\<^verbatim>\<open>enumerate(self.doc)\<close>.\<close>

definition enumerate_pages :: "document \<Rightarrow> (int \<times> pdf_page) list" where
  "enumerate_pages doc = zip (map int [0..<length (doc_pages doc)]) (doc_pages doc)"

definition find_headings :: "unicode \<Rightarrow> int \<Rightarrow> document \<Rightarrow> exn + heading list" where
  "find_headings U body_size doc =
     collect (\<lambda>(page_num, page). collect (heuristic_block U body_size page_num page) (text_dict page))
       (enumerate_pages doc)"

definition HeuristicStrategy_extract :: "unicode \<Rightarrow> document \<Rightarrow> exn + extraction" where
  "HeuristicStrategy_extract U doc =
     (let body_size = body_size_of U doc;
          title = HeuristicStrategy_extract_title U doc
      in case find_headings U body_size doc of
           Inl e \<Rightarrow> Inl e
         | Inr headings \<Rightarrow>
             (case structure_headings U headings of
                Inl e \<Rightarrow> Inl e
              | Inr outline \<Rightarrow> Inr \<lparr>r_title = title, r_outline = outline\<rparr>))"

subsection \<open>FormStrategy\<close>

definition FormStrategy_extract :: "unicode \<Rightarrow> document \<Rightarrow> exn + extraction" where
  "FormStrategy_extract U doc =
     (let title = HeuristicStrategy_extract_title U doc
      in Inr \<lparr>r_title = title, r_outline = []\<rparr>)"

subsection \<open>VisualLayoutStrategy\<close>

text \<open>
  The pattern \<^verbatim>\<open>:|\/|www\.|\.com|address|required|waiver|parents|regular pathway\<close>
  under \<^verbatim>\<open>re.IGNORECASE\<close>.
\<close>

definition pat_noise :: "unicode \<Rightarrow> regex" where
  "pat_noise U =
     Alts (map (StrI U)
             [lit '':'', lit ''/'', lit ''www.'', lit ''.com'', lit ''address'', lit ''required'',
              lit ''waiver'', lit ''parents'', lit ''regular pathway''])"

text \<open>The pattern \<^verbatim>\<open>([A-Z\s]+!)\<close>.\<close>

definition pat_call_to_action :: "unicode \<Rightarrow> regex" where
  "pat_call_to_action U =
     Group 1 (Seq (Plus (Cls (\<lambda>c. ascii_upper c \<or> isspace U c))) (Chr 33))"

text \<open>The score that \<^verbatim>\<open>VisualLayoutStrategy.extract\<close> adds up for a block.\<close>

definition visual_score ::
  "unicode \<Rightarrow> int \<Rightarrow> pystr \<Rightarrow> real \<Rightarrow> real \<Rightarrow> real \<Rightarrow> int \<Rightarrow> real \<Rightarrow> int" where
  "visual_score U body_size block_text space_above center_pos page_width font_size space_below =
     (let score = 0;
          score = (if space_above > 10 then score + 25 else score);
          score = (if \<bar>center_pos - page_width / 2\<bar> < page_width * (25 / 100)
                   then score + 20 else score);
          score = (if font_size > body_size + 1 then score + (font_size - body_size) * 5 else score);
          score = (if length (str_split U block_text) < 6 then score + 10 else score);
          score = (if str_isupper U block_text \<and> length (str_split U block_text) > 1
                   then score + 15 else score);
          score = (if space_below < 8 then score - 25 else score);
          score = (if length (str_split U block_text) > 10 \<or> 46 \<in> set (butlast block_text)
                   then score - 25 else score);
          score = (if re_search (pat_noise U) block_text \<noteq> None then score - 20 else score);
          score = (if 33 \<in> set block_text \<and> length (str_split U block_text) < 6
                   then score + 30 else score)
      in score)"

text \<open>
  The body of the inner loop for the block at index \<open>i\<close> of the sorted blocks of a page:
  the candidate it appends, if any. Group 1 of the call-to-action pattern is the whole
  pattern, so \<^verbatim>\<open>match.group(1)\<close> is a string (lemma \<open>call_to_action_group\<close> below).
\<close>

definition visual_block ::
  "unicode \<Rightarrow> int \<Rightarrow> int \<Rightarrow> real \<Rightarrow> text_block list \<Rightarrow> nat \<Rightarrow> exn + heading list" where
  "visual_block U body_size page_num page_width blocks i =
     (let b = blocks ! i in
      if b_type b \<noteq> 0 \<or> b_lines b = [] then Inr []
      else
        let block_text = clean_text U (block_join_text b) in
        if block_text = [] \<or> length block_text < 4 then Inr []
        else
          let bbox = b_bbox b;
              space_above = (if i > 0 then bbox1 bbox - bbox3 (b_bbox (blocks ! (i - 1))) else 100);
              center_pos = (bbox0 bbox + bbox2 bbox) / 2
          in
          (case l_spans (b_lines b ! 0) of
             [] \<Rightarrow> Inl IndexError
           | first_span # other \<Rightarrow>
               let font_size = py_round (s_size first_span);
                   space_below = (if i < length blocks - 1
                                  then bbox1 (b_bbox (blocks ! (i + 1))) - bbox3 bbox else 100);
                   score = visual_score U body_size block_text space_above center_pos page_width
                             font_size space_below
               in
               if score \<ge> 40 then
                 let is_bold = str_contains (lit ''bold'') (str_lower U (s_font first_span)) in
                 (case re_search (pat_call_to_action U) block_text of
                    Some m \<Rightarrow>
                      Inr [\<lparr>h_text = str_strip U (the (group m 1)), h_page = page_num,
                            h_style = (font_size, is_bold), h_bbox = b_bbox b\<rparr>]
                  | None \<Rightarrow>
                      Inr [\<lparr>h_text = block_text, h_page = page_num,
                            h_style = (font_size, is_bold), h_bbox = b_bbox b\<rparr>])
               else Inr []))"

definition visual_find_headings :: "unicode \<Rightarrow> int \<Rightarrow> document \<Rightarrow> exn + heading list" where
  "visual_find_headings U body_size doc =
     collect (\<lambda>(page_num, page).
                let page_width = rect_width page;
                    blocks = sort_key (\<lambda>b. bbox1 (b_bbox b)) (text_dict page)
                in collect (visual_block U body_size page_num page_width blocks)
                     [0..<length blocks])
       (enumerate_pages doc)"

definition VisualLayoutStrategy_extract :: "unicode \<Rightarrow> document \<Rightarrow> exn + extraction" where
  "VisualLayoutStrategy_extract U doc =
     (let body_size = body_size_of U doc
      in case visual_find_headings U body_size doc of
           Inl e \<Rightarrow> Inl e
         | Inr headings \<Rightarrow>
             (case structure_headings U headings of
                Inl e \<Rightarrow> Inl e
              | Inr outline \<Rightarrow> Inr \<lparr>r_title = [], r_outline = outline\<rparr>))"

section \<open>The dispatcher \<^verbatim>\<open>PDFOutlineExtractor\<close>\<close>

datatype strategy = TOCStrategy | HeuristicStrategy | FormStrategy | VisualLayoutStrategy

text \<open>
  \<^verbatim>\<open>_get_strategy\<close>: the class it instantiates. The constructors of the three
  heuristic classes compute the body size from the document; the model computes it
  where it is used.
\<close>

definition get_strategy :: "unicode \<Rightarrow> document \<Rightarrow> strategy" where
  "get_strategy U doc =
     (if page_count doc = 0 then HeuristicStrategy
      else
        let toc = doc_toc doc in
        if toc \<noteq> [] \<and> length toc > 5 then TOCStrategy
        else
          let first_page_text = str_lower U (text_plain_flags0 (doc_pages doc ! 0)) in
          if str_contains (lit ''application form'') first_page_text
             \<or> str_contains (lit ''grant of'') first_page_text
          then FormStrategy
          else if page_count doc \<le> 2
                  \<and> sum_list (map (\<lambda>p. length (text_words p)) (doc_pages doc)) < 800
          then VisualLayoutStrategy
          else HeuristicStrategy)"

definition strategy_extract :: "unicode \<Rightarrow> strategy \<Rightarrow> document \<Rightarrow> exn + extraction" where
  "strategy_extract U s doc =
     (case s of
        TOCStrategy \<Rightarrow> TOCStrategy_extract U doc
      | HeuristicStrategy \<Rightarrow> HeuristicStrategy_extract U doc
      | FormStrategy \<Rightarrow> FormStrategy_extract U doc
      | VisualLayoutStrategy \<Rightarrow> VisualLayoutStrategy_extract U doc)"

text \<open>\<^verbatim>\<open>PDFOutlineExtractor(doc).extract()\<close>.\<close>

definition extractor_extract :: "unicode \<Rightarrow> document \<Rightarrow> exn + extraction" where
  "extractor_extract U doc = strategy_extract U (get_strategy U doc) doc"

section \<open>The batch driver \<^verbatim>\<open>main\<close>\<close>











section \<open>Definitions for the properties\<close>

text \<open>
  What \<^verbatim>\<open>re.sub(r'\s+', ' ', text)\<close> computes, written as a recursion over the text:
  every maximal run of whitespace becomes one space. The proofs work with this function.
\<close>

function (sequential) sub_spaces :: "unicode \<Rightarrow> pystr \<Rightarrow> pystr" where
  "sub_spaces U [] = []"
| "sub_spaces U (c # cs) =
     (if isspace U c then 32 # sub_spaces U (dropWhile (isspace U) cs)
      else c # sub_spaces U cs)"
  by pat_completeness auto
termination
  by (relation "measure (\<lambda>(U, s). length s)")
     (auto simp: less_Suc_eq_le length_dropWhile_le)

text \<open>The identifier under which the structurer removes duplicates.\<close>

definition item_key :: "outline_item \<Rightarrow> pystr \<times> int" where
  "item_key item = (o_text item, o_page item)"

text \<open>
  Tables that hold no character beyond ASCII, for running the model on inputs that are
  ASCII text: there no table is consulted.
\<close>

definition ascii_only :: unicode where
  "ascii_only =
     \<lparr>u_isspace = (\<lambda>c. False), u_isdecimal = (\<lambda>c. False), u_isdigit = (\<lambda>c. False),
      u_isword = (\<lambda>c. False), u_isupper = (\<lambda>c. False), u_islower = (\<lambda>c. False),
      u_casematch = (\<lambda>p c. False), u_lower = (\<lambda>s. s), u_nfkc = (\<lambda>s. s)\<rparr>"

text \<open>
  Three candidates of one page, out of order: a numbered heading three levels deep, a
  large bold heading above it, and a second, smaller occurrence of the same text.
\<close>

definition c1_headings :: "heading list" where
  "c1_headings =
     [\<lparr>h_text = lit ''1.2.3 Deep'', h_page = 0, h_style = (14, False), h_bbox = (72, 300, 400, 320)\<rparr>,
      \<lparr>h_text = lit ''Overview'', h_page = 0, h_style = (20, True), h_bbox = (72, 100, 400, 130)\<rparr>,
      \<lparr>h_text = lit ''Overview'', h_page = 0, h_style = (14, False), h_bbox = (72, 500, 400, 520)\<rparr>]"

text \<open>
  No item's level is more than one above the level of the item before it; and the levels
  that the structurer assigns, 1 to 3.
\<close>

fun levels_step :: "outline_item list \<Rightarrow> bool" where
  "levels_step [] = True"
| "levels_step [x] = True"
| "levels_step (x # y # ys) = (o_level y \<le> o_level x + 1 \<and> levels_step (y # ys))"

definition level_in_range :: "outline_item \<Rightarrow> bool" where
  "level_in_range item = (1 \<le> o_level item \<and> o_level item \<le> 3)"

text \<open>
  The strategy selector as the specification words it: an ordered list of rules, each a
  condition on the document and the strategy it selects, the first rule whose condition
  holds deciding, and HeuristicStrategy when none holds.
\<close>

definition selector_rules :: "unicode \<Rightarrow> document \<Rightarrow> (bool \<times> strategy) list" where
  "selector_rules U doc =
     [(page_count doc = 0, HeuristicStrategy),
      (length (doc_toc doc) > 5, TOCStrategy),
      (str_contains (lit ''application form'') (str_lower U (text_plain_flags0 (doc_pages doc ! 0)))
       \<or> str_contains (lit ''grant of'') (str_lower U (text_plain_flags0 (doc_pages doc ! 0))),
       FormStrategy),
      (page_count doc \<le> 2 \<and> sum_list (map (\<lambda>p. length (text_words p)) (doc_pages doc)) < 800,
       VisualLayoutStrategy)]"

definition first_match_wins :: "(bool \<times> strategy) list \<Rightarrow> strategy" where
  "first_match_wins rules =
     (case find fst rules of Some (c, s) \<Rightarrow> s | None \<Rightarrow> HeuristicStrategy)"

text \<open>A one-page application form, and a document without pages whose table of contents has six entries.\<close>

definition form_page :: pdf_page where
  "form_page =
     \<lparr>rect_width = 600, rect_height = 800,
      text_dict = [\<lparr>b_type = 0, b_bbox = (100, 60, 500, 90),
                    b_lines = [\<lparr>l_spans = [\<lparr>s_text = lit ''Application Form'', s_size = 20, s_font = lit ''Helvetica-Bold''\<rparr>]\<rparr>]\<rparr>],
      text_dict_flags0 = [\<lparr>b_type = 0, b_bbox = (100, 60, 500, 90),
                    b_lines = [\<lparr>l_spans = [\<lparr>s_text = lit ''Application Form'', s_size = 20, s_font = lit ''Helvetica-Bold''\<rparr>]\<rparr>]\<rparr>],
      text_plain_flags0 = lit ''Application Form'',
      text_words = [lit ''Application'', lit ''Form'']\<rparr>"

definition form_doc :: document where
  "form_doc = \<lparr>doc_pages = [form_page], doc_toc = []\<rparr>"

definition empty_doc :: document where
  "empty_doc = \<lparr>doc_pages = [], doc_toc = replicate 6 (1, lit ''Chapter'', 0)\<rparr>"



text \<open>A one-page flyer of 50 words: the call "JOIN US!" at size 24, centred, above a line of body text at size 12.\<close>

definition flyer_title_block :: text_block where
  "flyer_title_block =
     \<lparr>b_type = 0, b_bbox = (206, 100, 406, 140),
      b_lines = [\<lparr>l_spans = [\<lparr>s_text = lit ''JOIN US!'', s_size = 24, s_font = lit ''Helvetica''\<rparr>]\<rparr>]\<rparr>"

definition flyer_body_block :: text_block where
  "flyer_body_block =
     \<lparr>b_type = 0, b_bbox = (72, 300, 540, 330),
      b_lines = [\<lparr>l_spans = [\<lparr>s_text = lit ''Picnic on Sunday. Bring friends.'', s_size = 12,
                               s_font = lit ''Helvetica''\<rparr>]\<rparr>]\<rparr>"

definition flyer_page :: pdf_page where
  "flyer_page =
     \<lparr>rect_width = 612, rect_height = 792,
      text_dict = [flyer_body_block, flyer_title_block],
      text_dict_flags0 = [flyer_body_block, flyer_title_block],
      text_plain_flags0 = lit ''JOIN US! Picnic on Sunday. Bring friends.'',
      text_words = replicate 50 (lit ''word'')\<rparr>"

definition flyer_doc :: document where
  "flyer_doc = \<lparr>doc_pages = [flyer_page], doc_toc = []\<rparr>"












text \<open>
  Tables that know three characters beyond ASCII, mapped as NFKC maps them: the
  ligatures U+FB01 and U+FB02 become "fi" and "fl", and the no-break space U+00A0, a
  whitespace character, becomes a space.
\<close>

definition compat_of :: "codepoint \<Rightarrow> pystr" where
  "compat_of c =
     (if c = 64257 then lit ''fi'' else if c = 64258 then lit ''fl''
      else if c = 160 then [32] else [c])"

definition ligature_tables :: unicode where
  "ligature_tables =
     \<lparr>u_isspace = (\<lambda>c. c = 160), u_isdecimal = (\<lambda>c. False), u_isdigit = (\<lambda>c. False),
      u_isword = (\<lambda>c. False), u_isupper = (\<lambda>c. False), u_islower = (\<lambda>c. False),
      u_casematch = (\<lambda>p c. False), u_lower = (\<lambda>s. s),
      u_nfkc = (\<lambda>s. concat (map compat_of s))\<rparr>"

definition messy_text :: pystr where
  "messy_text = [32, 64257] @ lit ''nal'' @ [160, 9, 64258] @ lit ''ow'' @ [10, 10] @ lit ''chart'' @ [32]"

text \<open>A string that normalisation leaves as it is.\<close>

definition nfkc_stable :: "unicode \<Rightarrow> pystr \<Rightarrow> bool" where
  "nfkc_stable U t = (nfkc U t = t)"

section \<open>Evaluation on ASCII text\<close>

text \<open>
  The definitions that decide the character classes on ASCII, and the ones that run a
  pattern: unfolding them evaluates the string operations on a literal, whatever the
  tables say about other code points.
\<close>

lemmas ascii_classes =
  isspace_def isdecimal_def isword_def isupper_def islower_def isdigit_def casematch_def
  is_ascii_def ascii_space_def ascii_decimal_def ascii_upper_def ascii_lower_def ascii_tolower_def

lemmas regex_ops = re_match_def re_search_def Plus_def Chr_def group_def is_boundary_def

lemma structure_single:
  "structure_headings U [h] =
     Inr [\<lparr>o_level = heading_level U [h_style h] h, o_text = h_text h, o_page = h_page h + 1\<rparr>]"
  by (simp add: structure_headings_def post_process_outline_def Let_def)

text \<open>
  The substitution of \<^verbatim>\<open>clean_text\<close>, run by the matcher, is the recursion
  \<open>sub_spaces\<close>.
\<close>

lemma star_class_step:
  "rmatch (Star (Cls P)) st =
     (case m_rest st of
        [] \<Rightarrow> [st]
      | c # cs \<Rightarrow> if P c then rmatch (Star (Cls P)) (st\<lparr>m_prev := Some c, m_rest := cs\<rparr>) @ [st]
                 else [st])"
  by (subst rmatch.simps(5)) (simp split: list.splits del: rmatch.simps(5))

lemma star_class_head:
  "\<exists>st' other. rmatch (Star (Cls P)) st = st' # other \<and> m_rest st' = dropWhile P (m_rest st)"
proof (induction "m_rest st" arbitrary: st)
  case Nil
  then have "rmatch (Star (Cls P)) st = [st]"
    by (subst star_class_step) (simp del: rmatch.simps)
  with Nil show ?case by (simp del: rmatch.simps)
next
  case (Cons c cs)
  from Cons(2) have r: "m_rest st = c # cs" by (rule sym)
  show ?case
  proof (cases "P c")
    case False
    with r have "rmatch (Star (Cls P)) st = [st]"
      by (subst star_class_step) (simp del: rmatch.simps)
    with False r show ?thesis by (simp del: rmatch.simps)
  next
    case True
    let ?st = "st\<lparr>m_prev := Some c, m_rest := cs\<rparr>"
    have "cs = m_rest ?st" by simp
    from Cons(1) [OF this] obtain st' other where IH:
      "rmatch (Star (Cls P)) ?st = st' # other" "m_rest st' = dropWhile P cs"
      by (auto simp del: rmatch.simps)
    from True r have "rmatch (Star (Cls P)) st = rmatch (Star (Cls P)) ?st @ [st]"
      by (subst star_class_step) (simp del: rmatch.simps)
    with IH True r show ?thesis by (simp del: rmatch.simps)
  qed
qed

lemma plus_class_step:
  "rmatch (Plus (Cls P)) st =
     (case m_rest st of
        [] \<Rightarrow> []
      | c # cs \<Rightarrow> if P c then rmatch (Star (Cls P)) (st\<lparr>m_prev := Some c, m_rest := cs\<rparr>) else [])"
  unfolding Plus_def
  by (simp split: list.splits del: rmatch.simps(5))

lemma plus_class_hit:
  assumes "P c"
  shows "\<exists>st' other. rmatch (Plus (Cls P)) \<lparr>m_prev = prev, m_rest = c # cs, m_groups = g\<rparr> = st' # other
     \<and> m_rest st' = dropWhile P cs"
  using assms star_class_head [of P "\<lparr>m_prev = Some c, m_rest = cs, m_groups = g\<rparr>"]
  by (simp add: plus_class_step del: rmatch.simps)

lemma scan_spaces:
  "(case re_scan (Plus (Cls (isspace U))) False prev s seg of
      (found, end_seg) \<Rightarrow> concat (map (\<lambda>(seg, st). seg @ [32]) found) @ end_seg)
   = seg @ sub_spaces U s"
proof (induction U s arbitrary: prev seg rule: sub_spaces.induct)
  case (1 U)
  show ?case
    by (subst re_scan.simps) (simp add: plus_class_step del: re_scan.simps rmatch.simps)
next
  case (2 U c cs)
  show ?case
  proof (cases "isspace U c")
    case True
    from plus_class_hit [of "isspace U" c prev cs "[]"] True obtain st' other where
      m: "rmatch (Plus (Cls (isspace U))) \<lparr>m_prev = prev, m_rest = c # cs, m_groups = []\<rparr> = st' # other"
      and r: "m_rest st' = dropWhile (isspace U) cs" by blast
    have len: "length (dropWhile (isspace U) cs) < Suc (length cs)"
      by (simp add: less_Suc_eq_le length_dropWhile_le)
    show ?thesis
      apply (subst re_scan.simps)
      using "2.IH"(1) [OF True, of "m_prev st'" "[]"] True
      by (simp add: m r len split: prod.splits del: re_scan.simps rmatch.simps)
  next
    case False
    show ?thesis
      apply (subst re_scan.simps)
      using "2.IH"(2) [OF False, of "Some c" "seg @ [c]"] False
      by (simp add: plus_class_step del: re_scan.simps rmatch.simps)
  qed
qed

lemma re_sub_spaces: "re_sub (pat_spaces U) [32] s = sub_spaces U s"
  using scan_spaces [of U None s "[]"]
  by (simp add: re_sub_def pat_spaces_def del: re_scan.simps rmatch.simps)

lemma clean_text_eq:
  "clean_text U text =
     (if text = [] then []
      else sub_spaces U
             (str_strip U
                (str_replace1 64258 (lit ''fl'') (str_replace1 64257 (lit ''fi'') (nfkc U text)))))"
proof -
  have "lit '' '' = [32]" by (simp add: lit_def)
  then show ?thesis
    by (simp add: clean_text_def Let_def re_sub_spaces del: re_scan.simps rmatch.simps)
qed

text \<open>
  Group 1 of the numbering pattern and of the call-to-action pattern encloses the whole
  pattern, so it takes part in every match and \<^verbatim>\<open>m.group(1)\<close> is a string.
\<close>

lemma rmatch_Group_head:
  "rmatch (Group g r) st = st' # other \<Longrightarrow> \<exists>t. group st' g = Some t"
  by (auto simp: group_def simp del: rmatch.simps(5))

lemma numbering_group:
  "re_match (pat_numbering U) s = Some m \<Longrightarrow> \<exists>t. group m 1 = Some t"
  unfolding re_match_def pat_numbering_def
  by (auto split: list.splits dest: rmatch_Group_head simp del: rmatch.simps)

lemma search_from_Group:
  "search_from (Group g r) prev s = Some m \<Longrightarrow> \<exists>t. group m g = Some t"
  by (induction s arbitrary: prev)
     (auto split: list.splits dest: rmatch_Group_head simp del: rmatch.simps)

lemma call_to_action_group:
  "re_search (pat_call_to_action U) s = Some m \<Longrightarrow> \<exists>t. group m 1 = Some t"
  unfolding re_search_def pat_call_to_action_def
  by (rule search_from_Group)

section \<open>Properties of the outline structurer\<close>

lemma level_num_small: "0 \<le> n \<Longrightarrow> n \<le> 9 \<Longrightarrow> level_num n = Inr n"
proof -
  assume "0 \<le> n" "n \<le> 9"
  then have "nat n < 10" by simp
  then have "leading_digit (nat n) = nat n" by simp
  with \<open>0 \<le> n\<close> show ?thesis by (simp add: level_num_def)
qed

lemma heading_level_range: "1 \<le> heading_level U st h \<and> heading_level U st h \<le> 3"
  by (simp add: heading_level_def split: option.splits)

lemma unique_loop_keys:
  "distinct (map item_key (unique_loop seen xs)) \<and>
   set (map item_key (unique_loop seen xs)) \<inter> seen = {} \<and>
   set (unique_loop seen xs) \<subseteq> set xs"
proof (induction xs arbitrary: seen)
  case Nil
  show ?case by simp
next
  case (Cons x xs)
  from Cons.IH [of seen] Cons.IH [of "insert (o_text x, o_page x) seen"]
  show ?case by (auto simp: item_key_def)
qed

lemma levels_step_snoc:
  "levels_step (xs @ [y]) = (levels_step xs \<and> (xs = [] \<or> o_level y \<le> o_level (last xs) + 1))"
  by (induction xs rule: levels_step.induct) auto

lemma post_process_loop_ok:
  assumes "final \<noteq> []" "list_all level_in_range final" "list_all level_in_range rest"
    "levels_step final"
  shows "\<exists>out. post_process_loop final rest = Inr out \<and>
           map item_key out = map item_key (final @ rest) \<and>
           list_all level_in_range out \<and> levels_step out"
  using assms
proof (induction rest arbitrary: final)
  case Nil
  then show ?case by simp
next
  case (Cons c rest)
  let ?l = "o_level (last final)"
  let ?c' = "if o_level c > ?l + 1 then c\<lparr>o_level := ?l + 1\<rparr> else c"
  from Cons.prems have lr: "level_in_range (last final)"
    by (simp add: list_all_iff)
  from Cons.prems have cr: "level_in_range c" by simp
  have n1: "level_num ?l = Inr ?l" using lr by (simp add: level_in_range_def level_num_small)
  have n2: "level_num (o_level c) = Inr (o_level c)"
    using cr by (simp add: level_in_range_def level_num_small)
  have step: "post_process_loop final (c # rest) = post_process_loop (final @ [?c']) rest"
    by (simp add: n1 n2)
  have c'r: "level_in_range ?c'" using lr cr by (auto simp: level_in_range_def)
  have c'k: "item_key ?c' = item_key c" by (simp add: item_key_def)
  have st: "levels_step (final @ [?c'])"
    using Cons.prems by (auto simp: levels_step_snoc)
  have "\<exists>out. post_process_loop (final @ [?c']) rest = Inr out \<and>
           map item_key out = map item_key ((final @ [?c']) @ rest) \<and>
           list_all level_in_range out \<and> levels_step out"
    by (rule Cons.IH) (use Cons.prems c'r st in auto)
  then show ?case using step c'k by auto
qed

lemma post_process_outline_ok:
  assumes "list_all level_in_range outline"
  shows "\<exists>out. post_process_outline outline = Inr out \<and>
           map item_key out = map item_key outline \<and>
           list_all level_in_range out \<and> levels_step out"
proof (cases outline)
  case Nil
  then show ?thesis by (simp add: post_process_outline_def)
next
  case (Cons first rest)
  with assms post_process_loop_ok [of "[first]" rest] show ?thesis
    by (simp add: post_process_outline_def)
qed

lemma levels_step_nth:
  "levels_step xs \<Longrightarrow> 0 < i \<Longrightarrow> i < length xs \<Longrightarrow> o_level (xs ! i) \<le> o_level (xs ! (i - 1)) + 1"
proof (induction xs arbitrary: i rule: levels_step.induct)
  case (3 x y ys)
  show ?case
  proof (cases "i = 1")
    case True
    with 3 show ?thesis by simp
  next
    case False
    with 3 have "o_level ((y # ys) ! (i - 1)) \<le> o_level ((y # ys) ! (i - 1 - 1)) + 1"
      by (intro "3.IH") auto
    with False 3 show ?thesis by (cases i) auto
  qed
qed auto

lemma structure_headings_ok:
  "\<exists>out. structure_headings U headings = Inr out \<and> distinct (map item_key out) \<and>
     list_all level_in_range out \<and> levels_step out"
proof (cases "headings = []")
  case True
  then show ?thesis by (simp add: structure_headings_def)
next
  case False
  define hs where "hs = sort_key (\<lambda>h. (h_page h, bbox1 (h_bbox h))) headings"
  define st where "st = rev (sort (remdups (map h_style hs)))"
  define outline where "outline = map (\<lambda>h. \<lparr>o_level = heading_level U st h,
                                 o_text = h_text h, o_page = h_page h + 1\<rparr>) hs"
  define uniq where "uniq = unique_loop {} outline"
  have eq: "structure_headings U headings = post_process_outline uniq"
    using False by (simp add: structure_headings_def Let_def hs_def st_def outline_def uniq_def)
  have "list_all level_in_range outline"
    by (simp add: outline_def list_all_iff level_in_range_def heading_level_range)
  moreover have "set uniq \<subseteq> set outline" "distinct (map item_key uniq)"
    using unique_loop_keys [of "{}" outline] by (simp_all add: uniq_def)
  ultimately have "list_all level_in_range uniq" by (auto simp: list_all_iff)
  from post_process_outline_ok [OF this] \<open>distinct (map item_key uniq)\<close> eq
  show ?thesis by auto
qed

text \<open>
  Claim C1. For every list of heading candidates the structurer returns an outline (it
  raises nothing); no two items of the outline have the same text and page; every level
  of the outline is one of 1, 2, 3 and is the number that the code reads back from the
  level string; and the level of every item after the first is at most one more than the
  level of the item before it.
\<close>

theorem C1_structured_outline:
  "\<exists>outline. structure_headings U headings = Inr outline \<and>
     distinct (map item_key outline) \<and>
     list_all (\<lambda>item. 1 \<le> o_level item \<and> o_level item \<le> 3
                      \<and> level_num (o_level item) = Inr (o_level item)) outline \<and>
     (\<forall>i. 0 < i \<and> i < length outline \<longrightarrow>
        o_level (outline ! i) \<le> o_level (outline ! (i - 1)) + 1)"
proof -
  obtain out where out: "structure_headings U headings = Inr out" "distinct (map item_key out)"
    "list_all level_in_range out" "levels_step out"
    using structure_headings_ok by blast
  have "o_level (out ! i) \<le> o_level (out ! (i - 1)) + 1" if "0 < i \<and> i < length out" for i
    using levels_step_nth [OF out(4), of i] that by simp
  moreover have "list_all (\<lambda>item. 1 \<le> o_level item \<and> o_level item \<le> 3
                      \<and> level_num (o_level item) = Inr (o_level item)) out"
    using out(3) by (auto simp: list_all_iff level_in_range_def level_num_small)
  ultimately show ?thesis using out(1,2) by blast
qed

lemma c1_eval:
  "structure_headings ascii_only c1_headings =
     Inr [\<lparr>o_level = 1, o_text = lit ''Overview'', o_page = 1\<rparr>,
          \<lparr>o_level = 2, o_text = lit ''1.2.3 Deep'', o_page = 1\<rparr>]"
  by (simp add: structure_headings_def c1_headings_def bbox1_def heading_level_def
      re_match_def pat_numbering_def Plus_def Chr_def group_def
      isdecimal_def is_ascii_def ascii_decimal_def lit_def
      post_process_outline_def level_num_def Let_def)

theorem C1_structured_outline_witness:
  "\<exists>outline. structure_headings ascii_only c1_headings = Inr outline \<and>
     outline = [\<lparr>o_level = 1, o_text = lit ''Overview'', o_page = 1\<rparr>,
                \<lparr>o_level = 2, o_text = lit ''1.2.3 Deep'', o_page = 1\<rparr>] \<and>
     distinct (map item_key outline) \<and>
     list_all (\<lambda>item. 1 \<le> o_level item \<and> o_level item \<le> 3
                      \<and> level_num (o_level item) = Inr (o_level item)) outline \<and>
     o_level (outline ! 1) \<le> o_level (outline ! (1 - 1)) + 1"
proof -
  from C1_structured_outline [of ascii_only c1_headings]
  obtain outline where o: "structure_headings ascii_only c1_headings = Inr outline"
    "distinct (map item_key outline)"
    "list_all (\<lambda>item. 1 \<le> o_level item \<and> o_level item \<le> 3
                      \<and> level_num (o_level item) = Inr (o_level item)) outline"
    "\<forall>i. 0 < i \<and> i < length outline \<longrightarrow>
        o_level (outline ! i) \<le> o_level (outline ! (i - 1)) + 1"
    by blast
  from o(1) have eq: "outline = [\<lparr>o_level = 1, o_text = lit ''Overview'', o_page = 1\<rparr>,
                \<lparr>o_level = 2, o_text = lit ''1.2.3 Deep'', o_page = 1\<rparr>]"
    by (simp add: c1_eval)
  then have "0 < (1::nat) \<and> 1 < length outline" by simp
  with o(4) have "o_level (outline ! 1) \<le> o_level (outline ! (1 - 1)) + 1" by blast
  with o(1,2,3) eq show ?thesis by blast
qed

section \<open>The strategy selector\<close>

text \<open>
  Claim C2. The strategy selector is a function of the document alone, and what it
  selects is what the first matching rule of the specification's ordered list selects:
  no page, HeuristicStrategy; else more than five entries in the table of contents,
  TOCStrategy; else "application form" or "grant of" in the lowercase plain text of the
  first page, FormStrategy; else at most two pages and fewer than 800 words,
  VisualLayoutStrategy; otherwise HeuristicStrategy.
\<close>

theorem C2_selector_first_match:
  "get_strategy U doc = first_match_wins (selector_rules U doc)"
  by (simp add: get_strategy_def first_match_wins_def selector_rules_def Let_def)

lemma form_doc_lower:
  "str_lower ascii_only (lit ''Application Form'') = lit ''application form''"
  by (simp add: str_lower_def lit_def is_ascii_def ascii_tolower_def ascii_upper_def)

theorem C2_selector_first_match_witness:
  "get_strategy ascii_only form_doc = first_match_wins (selector_rules ascii_only form_doc) \<and>
   get_strategy ascii_only form_doc = FormStrategy"
proof -
  have "first_match_wins (selector_rules ascii_only form_doc) = FormStrategy"
    by (simp add: first_match_wins_def selector_rules_def form_doc_def form_page_def
        page_count_def form_doc_lower) (simp add: lit_def)
  with C2_selector_first_match [of ascii_only form_doc] show ?thesis by simp
qed

section \<open>Title extraction\<close>

text \<open>
  Claim C7. For every document, the title extraction of TOCStrategy and the title
  extraction of HeuristicStrategy (which FormStrategy uses unchanged) return the same
  string, and the title of FormStrategy's result is exactly that string.
\<close>

theorem C7_title_chain_identical:
  "TOCStrategy_extract_title U doc = HeuristicStrategy_extract_title U doc
   \<and> FormStrategy_extract U doc
       = Inr \<lparr>r_title = HeuristicStrategy_extract_title U doc, r_outline = []\<rparr>"
  by (simp add: TOCStrategy_extract_title_def HeuristicStrategy_extract_title_def
      FormStrategy_extract_def)

lemma clean_title: "clean_text ascii_only (lit ''Application Form'') = lit ''Application Form''"
  by (simp add: clean_text_eq nfkc_def lit_def is_ascii_def str_replace1_def str_strip_def
      isspace_def ascii_space_def Let_def)

theorem C7_title_chain_identical_witness:
  "TOCStrategy_extract_title ascii_only form_doc = HeuristicStrategy_extract_title ascii_only form_doc \<and>
   HeuristicStrategy_extract_title ascii_only form_doc = lit ''Application Form''"
proof -
  have s: "str_strip ascii_only (lit ''Application Form'') \<noteq> []"
    by (simp add: lit_def str_strip_def isspace_def ascii_space_def is_ascii_def)
  have "HeuristicStrategy_extract_title ascii_only form_doc = lit ''Application Form''"
    by (simp add: HeuristicStrategy_extract_title_def form_doc_def form_page_def page_count_def
        bbox3_def block_spans_def s py_max_def py_round_def Let_def clean_title)
  with C7_title_chain_identical [of ascii_only form_doc] show ?thesis by simp
qed

section \<open>The document without pages\<close>

text \<open>
  Claim C8. For a document with zero pages the selector picks HeuristicStrategy, title
  extraction returns the empty string, and the extraction result is the empty result:
  the empty title and the empty outline.
\<close>

theorem C8_zero_pages:
  assumes "page_count doc = 0"
  shows "get_strategy U doc = HeuristicStrategy \<and>
         HeuristicStrategy_extract_title U doc = [] \<and>
         extractor_extract U doc = Inr \<lparr>r_title = [], r_outline = []\<rparr>"
proof -
  from assms have p: "doc_pages doc = []" by (simp add: page_count_def)
  have g: "get_strategy U doc = HeuristicStrategy" using assms by (simp add: get_strategy_def)
  have t: "HeuristicStrategy_extract_title U doc = []"
    using assms by (simp add: HeuristicStrategy_extract_title_def)
  have f: "find_headings U b doc = Inr []" for b
    by (simp add: find_headings_def enumerate_pages_def p)
  have s: "structure_headings U [] = Inr []" by (simp add: structure_headings_def)
  show ?thesis
    by (simp add: g t extractor_extract_def strategy_extract_def HeuristicStrategy_extract_def f s)
qed

theorem C8_zero_pages_witness:
  "page_count empty_doc = 0 \<and> get_strategy ascii_only empty_doc = HeuristicStrategy \<and>
   HeuristicStrategy_extract_title ascii_only empty_doc = [] \<and>
   extractor_extract ascii_only empty_doc = Inr \<lparr>r_title = [], r_outline = []\<rparr>"
proof -
  have h: "page_count empty_doc = 0" by (simp add: page_count_def empty_doc_def)
  from C8_zero_pages [OF h, of ascii_only] h show ?thesis by simp
qed

section \<open>Scenario B: a numbered heading under HeuristicStrategy\<close>









section \<open>Scenario C: a call to action under VisualLayoutStrategy\<close>

lemma join_us_split: "str_split U (lit ''JOIN US!'') = [lit ''JOIN'', lit ''US!'']"
  by (simp add: lit_def ascii_classes)

lemma join_us_isupper: "str_isupper U (lit ''JOIN US!'')"
  by (simp add: str_isupper_def lit_def ascii_classes)

lemma join_us_noise: "re_search (pat_noise U) (lit ''JOIN US!'') = None"
  by (simp add: pat_noise_def regex_ops lit_def ascii_classes)

lemma join_us_call:
  "map_option (\<lambda>m. group m 1) (re_search (pat_call_to_action U) (lit ''JOIN US!''))
     = Some (Some (lit ''JOIN US!''))"
  by (simp add: pat_call_to_action_def regex_ops lit_def ascii_classes)

lemma join_us_strip: "str_strip U (lit ''JOIN US!'') = lit ''JOIN US!''"
  by (simp add: str_strip_def lit_def ascii_classes)

lemma join_us_score:
  assumes "space_above > 10" and "\<bar>center_pos - page_width / 2\<bar> < page_width * (25 / 100)"
    and "\<not> space_below < 8"
  shows "visual_score U 12 (lit ''JOIN US!'') space_above center_pos page_width 24 space_below = 160"
  unfolding visual_score_def Let_def join_us_split
  using assms join_us_isupper [of U] join_us_noise [of U]
  by simp (simp add: lit_def)

text \<open>
  Claim C5. On a one-page document of 50 words (no long table of contents, no form
  phrase) the selector picks VisualLayoutStrategy. With body size 12, the first block of
  the page in vertical order, being a text block whose first span has rounded size 24,
  whose cleaned text is "JOIN US!", that is horizontally centred and has no block closer
  than 8 units below it, scores 25 + 20 + 60 + 10 + 15 + 30 = 160, which reaches the
  threshold 40, and the candidate appended for it has exactly the text "JOIN US!".
\<close>

theorem C5_visual_scenario:
  assumes "doc_pages doc = [page]" and "length (text_words page) = 50"
    and "length (doc_toc doc) \<le> 5"
    and "\<not> str_contains (lit ''application form'') (str_lower U (text_plain_flags0 page))"
    and "\<not> str_contains (lit ''grant of'') (str_lower U (text_plain_flags0 page))"
    and "blocks = sort_key (\<lambda>b. bbox1 (b_bbox b)) (text_dict page)"
    and "blocks = b # later_blocks"
    and "b_type b = 0" and "b_lines b = first_line # other_lines"
    and "l_spans first_line = first_span # other_spans"
    and "clean_text U (block_join_text b) = lit ''JOIN US!''"
    and "py_round (s_size first_span) = 24"
    and "\<bar>(bbox0 (b_bbox b) + bbox2 (b_bbox b)) / 2 - rect_width page / 2\<bar>
           < rect_width page * (25 / 100)"
    and "space_below = (if 0 < length blocks - 1
                        then bbox1 (b_bbox (blocks ! (0 + 1))) - bbox3 (b_bbox b) else 100)"
    and "8 \<le> space_below"
  shows "get_strategy U doc = VisualLayoutStrategy
       \<and> visual_score U 12 (lit ''JOIN US!'') 100
            ((bbox0 (b_bbox b) + bbox2 (b_bbox b)) / 2) (rect_width page) 24 space_below
           = 25 + 20 + 60 + 10 + 15 + 30
       \<and> 40 \<le> visual_score U 12 (lit ''JOIN US!'') 100
            ((bbox0 (b_bbox b) + bbox2 (b_bbox b)) / 2) (rect_width page) 24 space_below
       \<and> visual_block U 12 page_num (rect_width page) blocks 0 =
           Inr [\<lparr>h_text = lit ''JOIN US!'', h_page = page_num,
                 h_style = (24, str_contains (lit ''bold'') (str_lower U (s_font first_span))),
                 h_bbox = b_bbox b\<rparr>]"
proof -
  have sel: "get_strategy U doc = VisualLayoutStrategy"
    using assms(1-5) by (simp add: get_strategy_def page_count_def Let_def)
  have sc: "visual_score U 12 (lit ''JOIN US!'') 100
            ((bbox0 (b_bbox b) + bbox2 (b_bbox b)) / 2) (rect_width page) 24 space_below = 160"
    using assms(13,15) by (intro join_us_score) simp_all
  have ne: "lit ''JOIN US!'' \<noteq> []" "\<not> length (lit ''JOIN US!'') < 4" by (simp_all add: lit_def)
  obtain m where m: "re_search (pat_call_to_action U) (lit ''JOIN US!'') = Some m"
    "group m 1 = Some (lit ''JOIN US!'')"
    using join_us_call [of U] by auto
  have blk: "visual_block U 12 page_num (rect_width page) blocks 0 =
           Inr [\<lparr>h_text = lit ''JOIN US!'', h_page = page_num,
                 h_style = (24, str_contains (lit ''bold'') (str_lower U (s_font first_span))),
                 h_bbox = b_bbox b\<rparr>]"
  proof -
    have b0: "blocks ! 0 = b" using assms(7) by simp
    have sb: "(if 0 < length blocks - 1
               then bbox1 (b_bbox (blocks ! (0 + 1))) - bbox3 (b_bbox b) else 100) = space_below"
      using assms(14) by simp
    show ?thesis
      unfolding visual_block_def Let_def b0 sb
      using assms(8-12) ne sc m by (simp add: join_us_strip)
  qed
  have sc': "visual_score U 12 (lit ''JOIN US!'') 100
            ((bbox0 (b_bbox b) + bbox2 (b_bbox b)) / 2) (rect_width page) 24 space_below
           = 25 + 20 + 60 + 10 + 15 + 30"
    and th: "40 \<le> visual_score U 12 (lit ''JOIN US!'') 100
            ((bbox0 (b_bbox b) + bbox2 (b_bbox b)) / 2) (rect_width page) 24 space_below"
    by (simp_all add: sc)
  from sel sc' th blk show ?thesis by blast
qed

lemma flyer_sorted:
  "sort_key (\<lambda>b. bbox1 (b_bbox b)) (text_dict flyer_page) = [flyer_title_block, flyer_body_block]"
  by (simp add: flyer_page_def flyer_title_block_def flyer_body_block_def bbox1_def)

lemma flyer_lower:
  "str_lower ascii_only (text_plain_flags0 flyer_page) = lit ''join us! picnic on sunday. bring friends.''"
  by (simp add: flyer_page_def str_lower_def lit_def ascii_classes)

lemma flyer_clean:
  "clean_text ascii_only (lit ''JOIN US!'') = lit ''JOIN US!''"
  by (simp add: clean_text_eq nfkc_def lit_def str_replace1_def str_strip_def Let_def
      ascii_classes)

lemma flyer_body_size: "body_size_of ascii_only flyer_doc = 12"
  by (simp add: body_size_of_def analyze_font_stats_def get_dominant_font_size_def flyer_doc_def
      flyer_page_def flyer_title_block_def flyer_body_block_def block_spans_def str_strip_def
      py_round_def Let_def lit_def ascii_classes)

lemma flyer_body_clean:
  "clean_text ascii_only (lit ''Picnic on Sunday. Bring friends.'')
     = lit ''Picnic on Sunday. Bring friends.''"
  by (simp add: clean_text_eq nfkc_def lit_def str_replace1_def str_strip_def Let_def
      ascii_classes)

lemma flyer_body_split:
  "length (str_split U (lit ''Picnic on Sunday. Bring friends.'')) = 5"
  by (simp add: lit_def ascii_classes)

lemma flyer_body_noise:
  "re_search (pat_noise U) (lit ''Picnic on Sunday. Bring friends.'') = None"
  by (simp add: pat_noise_def regex_ops lit_def ascii_classes)

lemma flyer_body_block_skipped:
  "visual_block ascii_only 12 0 612 [flyer_title_block, flyer_body_block] 1 = Inr []"
proof -
  have u: "\<not> str_isupper ascii_only (lit ''Picnic on Sunday. Bring friends.'')"
    by (simp add: str_isupper_def lit_def ascii_classes)
  have sc: "visual_score ascii_only 12 (lit ''Picnic on Sunday. Bring friends.'') 160 306 612 12 100 = 30"
    unfolding visual_score_def Let_def flyer_body_split
    using u flyer_body_noise [of ascii_only] by simp (simp add: lit_def)
  have ne: "lit ''Picnic on Sunday. Bring friends.'' \<noteq> []"
    "\<not> length (lit ''Picnic on Sunday. Bring friends.'') < 4" by (simp_all add: lit_def)
  show ?thesis
    unfolding visual_block_def Let_def
    using ne sc
    by (simp add: flyer_body_block_def flyer_title_block_def block_join_text_def block_spans_def
        flyer_body_clean bbox0_def bbox1_def bbox2_def bbox3_def py_round_def Let_def)
qed

theorem C5_visual_scenario_witness:
  "get_strategy ascii_only flyer_doc = VisualLayoutStrategy
   \<and> visual_score ascii_only 12 (lit ''JOIN US!'') 100 306 612 24 160 = 160
   \<and> visual_block ascii_only 12 0 612 [flyer_title_block, flyer_body_block] 0 =
       Inr [\<lparr>h_text = lit ''JOIN US!'', h_page = 0, h_style = (24, False),
             h_bbox = (206, 100, 406, 140)\<rparr>]
   \<and> body_size_of ascii_only flyer_doc = 12
   \<and> extractor_extract ascii_only flyer_doc =
       Inr \<lparr>r_title = [], r_outline = [\<lparr>o_level = 1, o_text = lit ''JOIN US!'', o_page = 1\<rparr>]\<rparr>"
proof -
  let ?sp = "\<lparr>s_text = lit ''JOIN US!'', s_size = 24, s_font = lit ''Helvetica''\<rparr>"
  let ?blocks = "[flyer_title_block, flyer_body_block]"
  have 1: "doc_pages flyer_doc = [flyer_page]" by (simp add: flyer_doc_def)
  have 2: "length (text_words flyer_page) = 50" by (simp add: flyer_page_def)
  have 3: "length (doc_toc flyer_doc) \<le> 5" by (simp add: flyer_doc_def)
  have 4: "\<not> str_contains (lit ''application form'') (str_lower ascii_only (text_plain_flags0 flyer_page))"
    unfolding flyer_lower by (simp add: lit_def)
  have 5: "\<not> str_contains (lit ''grant of'') (str_lower ascii_only (text_plain_flags0 flyer_page))"
    unfolding flyer_lower by (simp add: lit_def)
  have 6: "?blocks = sort_key (\<lambda>b. bbox1 (b_bbox b)) (text_dict flyer_page)"
    by (simp add: flyer_sorted)
  have 7: "?blocks = flyer_title_block # [flyer_body_block]" by simp
  have 8: "b_type flyer_title_block = 0" by (simp add: flyer_title_block_def)
  have 9: "b_lines flyer_title_block = \<lparr>l_spans = [?sp]\<rparr> # []"
    by (simp add: flyer_title_block_def)
  have 10: "l_spans \<lparr>l_spans = [?sp]\<rparr> = ?sp # []" by simp
  have 11: "clean_text ascii_only (block_join_text flyer_title_block) = lit ''JOIN US!''"
    by (simp add: block_join_text_def block_spans_def flyer_title_block_def flyer_clean)
  have 12: "py_round (s_size ?sp) = 24" by (simp add: py_round_def Let_def)
  have 13: "\<bar>(bbox0 (b_bbox flyer_title_block) + bbox2 (b_bbox flyer_title_block)) / 2
              - rect_width flyer_page / 2\<bar> < rect_width flyer_page * (25 / 100)"
    by (simp add: flyer_title_block_def flyer_page_def bbox0_def bbox2_def)
  have 14: "(160::real) = (if 0 < length ?blocks - 1
                   then bbox1 (b_bbox (?blocks ! (0 + 1))) - bbox3 (b_bbox flyer_title_block)
                   else 100)"
    by (simp add: flyer_title_block_def flyer_body_block_def bbox1_def bbox3_def)
  have 15: "(8::real) \<le> 160" by simp
  have bold: "\<not> str_contains (lit ''bold'') (str_lower ascii_only (s_font ?sp))"
    by (simp add: str_lower_def lit_def ascii_classes)
  from C5_visual_scenario [OF 1 2 3 4 5 6 7 8 9 10 11 12 13 14 15, of 0] bold
  have g: "get_strategy ascii_only flyer_doc = VisualLayoutStrategy"
    and sc: "visual_score ascii_only 12 (lit ''JOIN US!'') 100 306 612 24 160 = 160"
    and v: "visual_block ascii_only 12 0 612 [flyer_title_block, flyer_body_block] 0 =
       Inr [\<lparr>h_text = lit ''JOIN US!'', h_page = 0, h_style = (24, False),
             h_bbox = (206, 100, 406, 140)\<rparr>]"
    by (simp_all add: flyer_title_block_def flyer_page_def bbox0_def bbox2_def)
  have w: "rect_width flyer_page = 612" by (simp add: flyer_page_def)
  have f: "visual_find_headings ascii_only 12 flyer_doc =
       Inr [\<lparr>h_text = lit ''JOIN US!'', h_page = 0, h_style = (24, False),
             h_bbox = (206, 100, 406, 140)\<rparr>]"
    by (simp add: visual_find_headings_def enumerate_pages_def flyer_doc_def flyer_sorted w
        upt_rec [of 0] Let_def v flyer_body_block_skipped [unfolded One_nat_def])
  have l: "heading_level ascii_only [(24, False)]
            \<lparr>h_text = lit ''JOIN US!'', h_page = 0, h_style = (24, False),
               h_bbox = (206, 100, 406, 140)\<rparr> = 1"
    by (simp add: heading_level_def pat_numbering_def regex_ops lit_def ascii_classes)
  have e: "extractor_extract ascii_only flyer_doc =
       Inr \<lparr>r_title = [], r_outline = [\<lparr>o_level = 1, o_text = lit ''JOIN US!'', o_page = 1\<rparr>]\<rparr>"
    by (simp add: extractor_extract_def g strategy_extract_def VisualLayoutStrategy_extract_def
        flyer_body_size f structure_single l)
  from g sc v flyer_body_size e show ?thesis by blast
qed

section \<open>The split of a table-of-contents entry\<close>

lemma toc_leader: "re_sub (pat_dot_leader U) [] (lit ''1.1 Intro 1.2 Scope'') = lit ''1.1 Intro 1.2 Scope''"
  by (simp add: re_sub_def pat_dot_leader_def regex_ops lit_def ascii_classes)

lemma toc_clean: "clean_text U (lit ''1.1 Intro 1.2 Scope'') = lit ''1.1 Intro 1.2 Scope''"
  by (simp add: clean_text_eq nfkc_def lit_def str_replace1_def str_strip_def Let_def
      ascii_classes)

lemma toc_split:
  "re_split (pat_sub_heading U) 1 (lit ''1.1 Intro 1.2 Scope'') =
     [Some [], Some (lit ''.1''), Some (lit ''1.1 Intro ''), Some (lit ''.2''), Some (lit ''1.2 Scope'')]"
  by (simp add: re_split_def pat_sub_heading_def regex_ops lit_def ascii_classes)


lemma toc_pieces:
  "str_strip U [] = []" "str_strip U (lit ''.1'') = lit ''.1''"
  "str_strip U (lit ''1.1 Intro '') = lit ''1.1 Intro''" "str_strip U (lit ''.2'') = lit ''.2''"
  "str_strip U (lit ''1.2 Scope'') = lit ''1.2 Scope''"
  by (simp_all add: str_strip_def lit_def ascii_classes)

text \<open>
  Claim C3 says that an entry whose cleaned text holds several numbered sub-headings
  becomes one item per sub-heading and nothing else. The pattern of the split has a
  capturing group, and \<^verbatim>\<open>re.split\<close> returns the text of the group after every piece
  that ends at a match. On the entry (1, "1.1 Intro 1.2 Scope", 0) the code therefore
  appends four items, not two: the captured ".1" and ".2" besides the two sub-headings.
\<close>

theorem C3_toc_split_items:
  "process_toc U [(1, lit ''1.1 Intro 1.2 Scope'', 0)] =
     Inr [\<lparr>o_level = 1, o_text = lit ''.1'', o_page = 1\<rparr>,
          \<lparr>o_level = 1, o_text = lit ''1.1 Intro'', o_page = 1\<rparr>,
          \<lparr>o_level = 1, o_text = lit ''.2'', o_page = 1\<rparr>,
          \<lparr>o_level = 1, o_text = lit ''1.2 Scope'', o_page = 1\<rparr>]"
proof -
  have d: "\<not> str_isdigit U (lit ''1.1 Intro 1.2 Scope'')"
    by (simp add: str_isdigit_def lit_def ascii_classes)
  have n: "length (lit ''1.1 Intro 1.2 Scope'') > 2" by (simp add: lit_def)
  have ne: "lit ''.1'' \<noteq> []" "lit ''1.1 Intro'' \<noteq> []" "lit ''.2'' \<noteq> []" "lit ''1.2 Scope'' \<noteq> []"
    by (simp_all add: lit_def)
  have items: "toc_entry_items U (1, lit ''1.1 Intro 1.2 Scope'', 0) =
     Inr [\<lparr>o_level = 1, o_text = lit ''.1'', o_page = 1\<rparr>,
          \<lparr>o_level = 1, o_text = lit ''1.1 Intro'', o_page = 1\<rparr>,
          \<lparr>o_level = 1, o_text = lit ''.2'', o_page = 1\<rparr>,
          \<lparr>o_level = 1, o_text = lit ''1.2 Scope'', o_page = 1\<rparr>]"
    using d n ne
    by (simp add: toc_entry_items_def toc_leader toc_clean toc_split [unfolded One_nat_def]
        toc_pieces Let_def)
  show ?thesis
    by (simp add: process_toc_def items post_process_outline_def level_num_def)
qed

section \<open>The first span of a block\<close>















section \<open>The batch driver\<close>





















section \<open>The text normaliser\<close>

lemma replace1_absent: "old \<notin> set s \<Longrightarrow> str_replace1 old new s = s"
  by (induction s) (auto simp: str_replace1_def)

lemma space_is_space: "isspace U 32"
  by (simp add: isspace_def is_ascii_def ascii_space_def)

lemma dropWhile_hd: "xs \<noteq> [] \<Longrightarrow> \<not> P (hd xs) \<Longrightarrow> dropWhile P xs = xs"
  by (cases xs) auto

lemma strip_factor: "\<exists>a c. t = a @ str_strip U t @ c"
proof -
  let ?u = "dropWhile (isspace U) t"
  have "?u = rev (dropWhile (isspace U) (rev ?u)) @ rev (takeWhile (isspace U) (rev ?u))"
    by (metis rev_append rev_rev_ident takeWhile_dropWhile_id)
  then have "t = takeWhile (isspace U) t @ str_strip U t @ rev (takeWhile (isspace U) (rev ?u))"
    unfolding str_strip_def by (metis takeWhile_dropWhile_id)
  then show ?thesis by blast
qed

lemma strip_ends:
  "str_strip U t = [] \<or> (\<not> isspace U (hd (str_strip U t)) \<and> \<not> isspace U (last (str_strip U t)))"
proof (cases "str_strip U t = []")
  case True
  then show ?thesis by simp
next
  case False
  let ?u = "dropWhile (isspace U) t"
  let ?v = "dropWhile (isspace U) (rev ?u)"
  from False have v: "?v \<noteq> []" by (simp add: str_strip_def)
  then have "\<not> isspace U (hd ?v)" by (metis hd_dropWhile)
  then have l: "\<not> isspace U (last (str_strip U t))"
    using v by (simp add: str_strip_def last_rev)
  have u: "?u \<noteq> []"
  proof
    assume "?u = []"
    then have "?v = []" by (simp only: rev.simps dropWhile.simps)
    with v show False ..
  qed
  then have hu: "\<not> isspace U (hd ?u)" by (metis hd_dropWhile)
  have "rev ?u = takeWhile (isspace U) (rev ?u) @ ?v" by simp
  then have "?u = rev ?v @ rev (takeWhile (isspace U) (rev ?u))"
    by (metis rev_append rev_rev_ident)
  with v have "hd ?u = hd (rev ?v)" by (metis hd_append2 rev_is_Nil_conv)
  with hu have "\<not> isspace U (hd (str_strip U t))" by (simp add: str_strip_def)
  with l show ?thesis by simp
qed

lemma strip_id:
  "t = [] \<or> (\<not> isspace U (hd t) \<and> \<not> isspace U (last t)) \<Longrightarrow> str_strip U t = t"
proof (cases t)
  case Nil
  then show ?thesis by (simp add: str_strip_def)
next
  case (Cons c cs)
  assume "t = [] \<or> (\<not> isspace U (hd t) \<and> \<not> isspace U (last t))"
  with Cons have h: "\<not> isspace U c" and l: "\<not> isspace U (last t)" by auto
  from h Cons have 1: "dropWhile (isspace U) t = t" by simp
  from Cons have "rev t \<noteq> []" by simp
  moreover from Cons l have "\<not> isspace U (hd (rev t))" by (metis hd_rev list.distinct(1))
  ultimately have "dropWhile (isspace U) (rev t) = rev t" by (rule dropWhile_hd)
  with 1 show ?thesis by (simp add: str_strip_def)
qed

lemma sub_spaces_head:
  "t \<noteq> [] \<Longrightarrow> \<not> isspace U (hd t) \<Longrightarrow> sub_spaces U t \<noteq> [] \<and> hd (sub_spaces U t) = hd t"
  by (cases t) auto

lemma sub_spaces_last:
  "t \<noteq> [] \<Longrightarrow> \<not> isspace U (last t) \<Longrightarrow>
     sub_spaces U t \<noteq> [] \<and> last (sub_spaces U t) = last t"
proof (induction U t rule: sub_spaces.induct)
  case (1 U)
  then show ?case by simp
next
  case (2 U c cs)
  show ?case
  proof (cases "isspace U c")
    case True
    with 2 have cs: "cs \<noteq> []" by auto
    with 2 have lc: "\<not> isspace U (last cs)" by simp
    have d: "dropWhile (isspace U) cs \<noteq> []"
      using cs lc by (metis dropWhile_eq_Nil_conv last_in_set)
    have "cs = takeWhile (isspace U) cs @ dropWhile (isspace U) cs" by simp
    with d have ld: "last (dropWhile (isspace U) cs) = last cs" by (metis last_appendR)
    from 2(1) [OF True d] lc ld True cs show ?thesis by simp
  next
    case False
    show ?thesis
    proof (cases "cs = []")
      case True
      with False show ?thesis by simp
    next
      case ne: False
      with 2 have "\<not> isspace U (last cs)" by simp
      from 2(2) [OF False ne this] False ne show ?thesis by simp
    qed
  qed
qed

lemma sub_spaces_idem: "sub_spaces U (sub_spaces U t) = sub_spaces U t"
proof (induction U t rule: sub_spaces.induct)
  case (1 U)
  then show ?case by simp
next
  case (2 U c cs)
  show ?case
  proof (cases "isspace U c")
    case True
    let ?v = "dropWhile (isspace U) cs"
    have "dropWhile (isspace U) (sub_spaces U ?v) = sub_spaces U ?v"
    proof (cases "sub_spaces U ?v = []")
      case True
      then show ?thesis by (simp only: dropWhile.simps)
    next
      case False
      then have ne: "?v \<noteq> []" by (metis sub_spaces.simps(1))
      then have "\<not> isspace U (hd ?v)" by (metis hd_dropWhile)
      with ne sub_spaces_head [of ?v U] have "\<not> isspace U (hd (sub_spaces U ?v))"
        by metis
      with False show ?thesis by (rule dropWhile_hd)
    qed
    with 2(1) [OF True] True show ?thesis by (simp add: space_is_space)
  next
    case False
    with 2(2) show ?thesis by simp
  qed
qed

lemma sub_spaces_set: "set (sub_spaces U t) \<subseteq> insert 32 (set t)"
proof (induction U t rule: sub_spaces.induct)
  case (1 U)
  then show ?case by simp
next
  case (2 U c cs)
  show ?case
  proof (cases "isspace U c")
    case True
    have "set (dropWhile (isspace U) cs) \<subseteq> set cs" by (rule set_dropWhileD [THEN subsetI])
    with 2(1) [OF True] True show ?thesis by auto
  next
    case False
    with 2(2) show ?thesis by auto
  qed
qed

lemma sub_spaces_no_space: "list_all (\<lambda>c. \<not> isspace U c) t \<Longrightarrow> sub_spaces U (t @ r) = t @ sub_spaces U r"
  by (induction t) auto

lemma nfkc_empty: "nfkc U [] = []"
  by (simp add: nfkc_def)

lemma sub_spaces_stable:
  assumes factor: "\<forall>a b c. nfkc_stable U (a @ b @ c) \<longrightarrow> nfkc_stable U b"
    and join: "\<forall>a b. nfkc_stable U a \<and> nfkc_stable U b \<longrightarrow> nfkc_stable U (a @ [32] @ b)"
  shows "nfkc_stable U t \<Longrightarrow> nfkc_stable U (sub_spaces U t)"
proof (induction "length t" arbitrary: t rule: less_induct)
  case less
  let ?seg = "takeWhile (\<lambda>c. \<not> isspace U c) t"
  let ?rest = "dropWhile (\<lambda>c. \<not> isspace U c) t"
  have t: "t = ?seg @ ?rest" by simp
  have seg: "list_all (\<lambda>c. \<not> isspace U c) ?seg"
    by (simp add: list_all_iff) (metis set_takeWhileD)
  have sub: "sub_spaces U t = ?seg @ sub_spaces U ?rest"
    using sub_spaces_no_space [OF seg, of ?rest] by simp
  show ?case
  proof (cases ?rest)
    case Nil
    with t have st: "?seg = t" by (metis append.right_neutral)
    from sub Nil have "sub_spaces U t = ?seg" by (simp only: sub_spaces.simps append_Nil2)
    with st have "sub_spaces U t = t" by (simp only:)
    with less.prems show ?thesis by (simp only:)
  next
    case (Cons w r)
    then have w: "isspace U w" by (metis hd_dropWhile list.distinct(1) list.sel(1))
    let ?b = "dropWhile (isspace U) r"
    have t': "t = (?seg @ w # takeWhile (isspace U) r) @ ?b @ []"
      using t Cons by simp
    have "nfkc_stable U ?b"
      using factor less.prems t' by metis
    moreover have "length ?b < length t"
    proof -
      have "length ?b \<le> length r" by (rule length_dropWhile_le)
      also have "length r < length ?rest" using Cons by simp
      also have "length ?rest \<le> length t" by (rule length_dropWhile_le)
      finally show ?thesis .
    qed
    ultimately have b: "nfkc_stable U (sub_spaces U ?b)" by (rule less.hyps [rotated])
    have "t = [] @ ?seg @ ?rest" by simp
    with factor less.prems have s: "nfkc_stable U ?seg" by metis
    from join s b have "nfkc_stable U (?seg @ [32] @ sub_spaces U ?b)" by blast
    moreover have "sub_spaces U t = ?seg @ [32] @ sub_spaces U ?b"
      using sub Cons w by simp
    ultimately show ?thesis by simp
  qed
qed

text \<open>
  Claim C9. \<^verbatim>\<open>clean_text\<close> is idempotent: cleaning a cleaned string changes nothing.
  Normalisation is the runtime's, so the theorem holds for every normalisation function
  with four properties that Unicode's NFKC has: normalising twice is normalising once; a
  normalised string holds neither ligature (both have compatibility decompositions);
  every contiguous part of a normalised string is normalised; and two normalised strings
  joined by a space are normalised (a space is a starter and composes with nothing).
\<close>

theorem C9_clean_text_idempotent:
  assumes idem: "\<forall>t. nfkc_stable U (nfkc U t)"
    and ligatures: "\<forall>t. 64257 \<notin> set (nfkc U t) \<and> 64258 \<notin> set (nfkc U t)"
    and factor: "\<forall>a b c. nfkc_stable U (a @ b @ c) \<longrightarrow> nfkc_stable U b"
    and join: "\<forall>a b. nfkc_stable U a \<and> nfkc_stable U b \<longrightarrow> nfkc_stable U (a @ [32] @ b)"
  shows "clean_text U (clean_text U s) = clean_text U s"
proof (cases "s = [] \<or> clean_text U s = []")
  case True
  then show ?thesis by (auto simp: clean_text_eq)
next
  case False
  let ?n = "nfkc U s"
  let ?u = "str_strip U ?n"
  let ?r = "sub_spaces U ?u"
  have rep: "str_replace1 64258 (lit ''fl'') (str_replace1 64257 (lit ''fi'') ?n) = ?n"
    using ligatures by (simp add: replace1_absent)
  have r: "clean_text U s = ?r"
    using False by (simp add: clean_text_eq Let_def rep)
  with False have ne: "?r \<noteq> []" by simp
  obtain a c where "?n = a @ ?u @ c" using strip_factor by blast
  with idem factor have "nfkc_stable U ?u" by metis
  then have "nfkc_stable U ?r" by (rule sub_spaces_stable [OF factor join])
  then have n: "nfkc U ?r = ?r" by (simp add: nfkc_stable_def)
  have "set ?r \<subseteq> insert 32 (set ?u)" by (rule sub_spaces_set)
  moreover have "set ?u \<subseteq> set ?n"
    using \<open>?n = a @ ?u @ c\<close> by (metis Un_upper1 Un_upper2 set_append subset_trans)
  ultimately have "set ?r \<subseteq> insert 32 (set ?n)" by blast
  with ligatures have "64257 \<notin> set ?r" "64258 \<notin> set ?r" by auto
  then have rep': "str_replace1 64258 (lit ''fl'') (str_replace1 64257 (lit ''fi'') ?r) = ?r"
    by (simp add: replace1_absent)
  have u: "?u \<noteq> []" using ne by auto
  with strip_ends [of U ?n] have "\<not> isspace U (hd ?u)" "\<not> isspace U (last ?u)" by auto
  with u sub_spaces_head [of ?u U] sub_spaces_last [of ?u U]
  have "\<not> isspace U (hd ?r) \<and> \<not> isspace U (last ?r)" by simp
  then have st: "str_strip U ?r = ?r" by (intro strip_id) simp
  have "clean_text U ?r = ?r"
    using ne by (simp add: clean_text_eq Let_def n rep' st sub_spaces_idem)
  with r show ?thesis by simp
qed

lemma ligature_nfkc: "nfkc ligature_tables t = concat (map compat_of t)"
proof (cases "list_all is_ascii t")
  case True
  then have "concat (map compat_of t) = t"
    by (induction t) (auto simp: compat_of_def is_ascii_def)
  with True show ?thesis by (simp add: nfkc_def)
next
  case False
  then show ?thesis by (simp add: nfkc_def ligature_tables_def)
qed

lemma ligature_stable:
  "nfkc_stable ligature_tables t = list_all (\<lambda>c. c \<noteq> 64257 \<and> c \<noteq> 64258 \<and> c \<noteq> 160) t"
  unfolding nfkc_stable_def ligature_nfkc
proof (induction t)
  case Nil
  show ?case by simp
next
  case (Cons c cs)
  show ?case
  proof (cases "c \<noteq> 64257 \<and> c \<noteq> 64258 \<and> c \<noteq> 160")
    case True
    with Cons show ?thesis by (simp add: compat_of_def)
  next
    case False
    then have "hd (compat_of c @ concat (map compat_of cs)) \<noteq> c"
      by (auto simp: compat_of_def lit_def)
    then have "compat_of c @ concat (map compat_of cs) \<noteq> c # cs" by (metis list.sel(1))
    then have l: "\<not> concat (map compat_of (c # cs)) = c # cs" by simp
    from False have r: "\<not> list_all (\<lambda>c. c \<noteq> 64257 \<and> c \<noteq> 64258 \<and> c \<noteq> 160) (c # cs)"
      by auto
    from l r show ?thesis by blast
  qed
qed

lemma ligature_normalised:
  "list_all (\<lambda>c. c \<noteq> 64257 \<and> c \<noteq> 64258 \<and> c \<noteq> 160) (nfkc ligature_tables t)"
  unfolding ligature_nfkc by (induction t) (auto simp: compat_of_def lit_def)

lemma messy_clean: "clean_text ligature_tables messy_text = lit ''final flow chart''"
proof -
  have ne: "messy_text \<noteq> []" by (simp add: messy_text_def)
  have n: "nfkc ligature_tables messy_text = lit '' final '' @ [9] @ lit ''flow'' @ [10, 10] @ lit ''chart ''"
    unfolding ligature_nfkc by (simp add: messy_text_def compat_of_def lit_def)
  have sp: "isspace ligature_tables c = ascii_space c" if "c < 128" for c
    using that by (simp add: isspace_def is_ascii_def)
  show ?thesis
    using ne unfolding clean_text_eq Let_def n
    by (simp add: str_replace1_def str_strip_def lit_def sp ascii_space_def)
qed

theorem C9_clean_text_idempotent_witness:
  "clean_text ligature_tables (clean_text ligature_tables messy_text)
     = clean_text ligature_tables messy_text
   \<and> clean_text ligature_tables messy_text = lit ''final flow chart''"
proof -
  have 1: "\<forall>t. nfkc_stable ligature_tables (nfkc ligature_tables t)"
    by (simp add: ligature_stable ligature_normalised)
  have 2: "\<forall>t. 64257 \<notin> set (nfkc ligature_tables t) \<and> 64258 \<notin> set (nfkc ligature_tables t)"
    using ligature_normalised by (auto simp: list_all_iff)
  have 3: "\<forall>a b c. nfkc_stable ligature_tables (a @ b @ c) \<longrightarrow> nfkc_stable ligature_tables b"
    by (simp add: ligature_stable)
  have 4: "\<forall>a b. nfkc_stable ligature_tables a \<and> nfkc_stable ligature_tables b
             \<longrightarrow> nfkc_stable ligature_tables (a @ [32] @ b)"
    by (simp add: ligature_stable)
  from C9_clean_text_idempotent [OF 1 2 3 4, of messy_text] messy_clean
  show ?thesis by simp
qed

end
